theory Spec2Isabelle
  imports Main "HOL-Library.Sublist"
begin

section \<open>Reaction-driven embeds: InteractiveEmbed and PaginatedEmbed\<close>

text \<open>
  A shallow embedding of \<^verbatim>\<open>src/core/InteractiveEmbed.ts\<close>. The two classes are thin
  layers over the chat library: they call it (send, react, edit, remove reactions),
  they mutate embed objects, and they keep a page index. The embedding therefore has
  \<^item> a store of embed and footer objects, since the paginator writes into the caller's
    objects and JavaScript objects are shared by reference;
  \<^item> a trace of the calls made to the chat library, each marked as awaited or not;
  \<^item> the outcome of every awaited call as an input, since a rejected promise ends the
    \<^verbatim>\<open>async\<close> function that awaits it;
  \<^item> the library's own functions on embeds (\<^verbatim>\<open>toJSON\<close> and the \<^verbatim>\<open>MessageEmbed\<close>
    constructor) as parameters, since their code is not part of this repository.
\<close>

subsection \<open>Strings and numbers\<close>

text \<open>
  Strings are byte lists in UTF-8; the three characters of the source outside ASCII are
  written out. No property below depends on the length of a string.
\<close>

definition left_arrow :: string where
  "left_arrow = [CHR 0xE2, CHR 0xAC, CHR 0x85]"

definition right_arrow :: string where
  "right_arrow = [CHR 0xE2, CHR 0x9E, CHR 0xA1]"

definition bullet :: string where
  "bullet = [CHR 0xE2, CHR 0x80, CHR 0xA2]"

definition digit :: "nat \<Rightarrow> char" where
  "digit d = ''0123456789'' ! d"

text \<open>What a template literal prints for a non-negative integer: its decimal digits.\<close>

fun decimal :: "nat \<Rightarrow> string" where
  "decimal n = (if n < 10 then [digit n] else decimal (n div 10) @ [digit (n mod 10)])"

declare decimal.simps [simp del]

text \<open>\<^verbatim>\<open>`Page ${i + 1}/${embeds.length}`\<close>, for the 0-based position \<open>i\<close>.\<close>

definition page_label :: "nat \<Rightarrow> nat \<Rightarrow> string" where
  "page_label i n = ''Page '' @ decimal (i + 1) @ ''/'' @ decimal n"

text \<open>\<^verbatim>\<open>` \<bullet> Page ${i + 1}/${embeds.length}`\<close>: the same behind a bullet between spaces.\<close>

definition page_suffix :: "nat \<Rightarrow> nat \<Rightarrow> string" where
  "page_suffix i n = '' '' @ bullet @ '' '' @ page_label i n"

text \<open>\<^verbatim>\<open>xs[i]\<close> in JavaScript: \<^verbatim>\<open>undefined\<close> (here \<open>None\<close>) outside the array.\<close>

definition array_get :: "'a list \<Rightarrow> int \<Rightarrow> 'a option" where
  "array_get xs i = (if 0 \<le> i \<and> i < int (length xs) then Some (xs ! nat i) else None)"

subsection \<open>Embed objects and the store\<close>

type_synonym addr = nat

text \<open>A plain object (\<^verbatim>\<open>MessageEmbedOptions\<close>, the result of \<^verbatim>\<open>toJSON\<close>): keys to values.\<close>

type_synonym 'v obj = "string \<rightharpoonup> 'v"

text \<open>The object spread \<^verbatim>\<open>{ ...a, ...b }\<close>: the keys of both, \<open>b\<close> winning.\<close>

definition spread :: "'v obj \<Rightarrow> 'v obj \<Rightarrow> 'v obj" where
  "spread a b = (\<lambda>k. case b k of Some v \<Rightarrow> Some v | None \<Rightarrow> a k)"

text \<open>
  A footer object; \<open>None\<close> is an absent (\<^verbatim>\<open>undefined\<close>) property. An embed object holds
  a reference to its footer object, or \<^verbatim>\<open>null\<close>; its other properties (title, fields, ...)
  are never read by this module and stay opaque in \<open>content\<close>.
\<close>

record MessageEmbedFooter =
  footer_text :: "string option"
  iconURL :: "string option"
  proxyIconURL :: "string option"

record 'r MessageEmbed =
  footer :: "addr option"
  content :: 'r

text \<open>
  The store: embed objects and footer objects by address. Addresses below \<open>nextAddr\<close>
  are in use; \<^verbatim>\<open>new\<close> and object literals take the next ones.
\<close>

record 'r heap =
  embedObjs :: "addr \<Rightarrow> 'r MessageEmbed"
  footerObjs :: "addr \<Rightarrow> MessageEmbedFooter"
  nextAddr :: addr

text \<open>What an embed object holds, its footer read through the reference.\<close>

type_synonym 'r embed_value = "'r \<times> MessageEmbedFooter option"

definition snapshot :: "'r heap \<Rightarrow> addr \<Rightarrow> 'r embed_value" where
  "snapshot h a =
     (content (embedObjs h a), map_option (footerObjs h) (footer (embedObjs h a)))"

text \<open>
  The part of the chat library this module calls on embeds. \<open>toJSON\<close> serialises an
  embed to a plain object; \<open>construct\<close> is what the constructor \<^verbatim>\<open>new MessageEmbed(data)\<close>
  makes of its argument, which is an embed (\<open>Inl\<close>) or a plain object (\<open>Inr\<close>). Both
  only read their argument.
\<close>

record ('r, 'v) discord =
  toJSON :: "'r embed_value \<Rightarrow> 'v obj"
  construct :: "'r embed_value + 'v obj \<Rightarrow> 'r embed_value"

text \<open>The argument of a constructor: \<^verbatim>\<open>MessageEmbed | MessageEmbedOptions\<close>.\<close>

datatype 'v embed_arg = Embed addr | Options "'v obj"

definition read_arg :: "'r heap \<Rightarrow> 'v embed_arg \<Rightarrow> 'r embed_value + 'v obj" where
  "read_arg h x = (case x of Embed a \<Rightarrow> Inl (snapshot h a) | Options d \<Rightarrow> Inr d)"

text \<open>
  \<^verbatim>\<open>new MessageEmbed(x)\<close>: a new embed object, with a new footer object of its own when
  it has a footer. Nothing that existed before is written.
\<close>

definition MessageEmbed_new ::
  "('r, 'v) discord \<Rightarrow> 'v embed_arg \<Rightarrow> 'r heap \<Rightarrow> addr \<times> 'r heap" where
  "MessageEmbed_new lib x h =
     (let (c, f) = construct lib (read_arg h x); a = nextAddr h in
      case f of
        None \<Rightarrow>
          (a, h\<lparr>embedObjs := (embedObjs h)(a := \<lparr>footer = None, content = c\<rparr>),
                nextAddr := a + 1\<rparr>)
      | Some fv \<Rightarrow>
          (a, h\<lparr>embedObjs := (embedObjs h)(a := \<lparr>footer = Some (a + 1), content = c\<rparr>),
                footerObjs := (footerObjs h)(a + 1 := fv),
                nextAddr := a + 2\<rparr>))"

text \<open>
  \<^verbatim>\<open>embed.setFooter(text)\<close> of the library: the embed gets a new footer object with
  that text and no icon.
\<close>

definition setFooter :: "addr \<Rightarrow> string \<Rightarrow> 'r heap \<Rightarrow> 'r heap" where
  "setFooter a t h =
     h\<lparr>embedObjs := (embedObjs h)(a := (embedObjs h a)\<lparr>footer := Some (nextAddr h)\<rparr>),
       footerObjs := (footerObjs h)
         (nextAddr h := \<lparr>footer_text = Some t, iconURL = None, proxyIconURL = None\<rparr>),
       nextAddr := nextAddr h + 1\<rparr>"

subsection \<open>Calls to the chat library\<close>

record User =
  user_id :: string
  username :: string

record MessageReaction =
  emoji_name :: string

text \<open>
  The collector as \<^verbatim>\<open>createReactionCollector(filter, { idle, time })\<close> gets it: the
  filter predicate and the two timeouts, in milliseconds.
\<close>

record ReactionCollector =
  rc_filter :: "MessageReaction \<Rightarrow> User \<Rightarrow> bool"
  rc_idle :: nat
  rc_time :: nat

text \<open>
  The promise-returning calls. A message argument is a reference to an embed object, or
  \<^verbatim>\<open>undefined\<close> when it was read outside an array.
\<close>

datatype call =
    ChannelSend "addr option"
  | React string
  | UsersRemove MessageReaction User
  | ReactionsRemoveAll
  | MessageEdit "addr option"

text \<open>
  One entry of the trace. \<open>Await c\<close>: the call is made and the function waits for it.
  \<open>Detach c\<close>: the call is made and its promise dropped, so the function goes on at
  once. The other two are synchronous: creating the collector, and \<^verbatim>\<open>this.emit\<close>.
\<close>

datatype effect =
    Await call
  | Detach call
  | CreateReactionCollector ReactionCollector
  | Emit string MessageReaction User

text \<open>How an awaited promise settles.\<close>

datatype outcome = Resolved | Rejected

text \<open>
  What ends a function early: the \<^verbatim>\<open>Error\<close> thrown by the paginator's constructor, the
  rejection of an awaited call, or a \<^verbatim>\<open>TypeError\<close> on a property of \<^verbatim>\<open>undefined\<close>.
\<close>

datatype error = Error string | CallRejected call | TypeError

subsection \<open>InteractiveEmbed\<close>

record 'v InteractiveEmbed =
  ie_collector :: "ReactionCollector option"
  ie_embed :: addr
  ie_emojis :: "string list"
  ie_killed :: "'v obj option"

definition InteractiveEmbed_new ::
  "('r, 'v) discord \<Rightarrow> string list \<Rightarrow> 'v embed_arg \<Rightarrow> 'v obj option \<Rightarrow> 'r heap
     \<Rightarrow> 'v InteractiveEmbed \<times> 'r heap" where
  "InteractiveEmbed_new lib emojis embed0 killed h =
     (let (a, h') = MessageEmbed_new lib embed0 h in
      (\<lparr>ie_collector = None, ie_embed = a, ie_emojis = emojis, ie_killed = killed\<rparr>, h'))"

text \<open>
  \<^verbatim>\<open>send\<close>: the message is awaited; the reactions are started by \<^verbatim>\<open>forEach\<close> over an
  \<^verbatim>\<open>async\<close> arrow function, whose promises \<^verbatim>\<open>forEach\<close> drops; then the collector is
  created. \<open>sent\<close> is the outcome of \<^verbatim>\<open>channel.send\<close>.
\<close>

definition InteractiveEmbed_send ::
  "'v InteractiveEmbed \<Rightarrow> User \<Rightarrow> outcome
     \<Rightarrow> effect list \<times> (error + 'v InteractiveEmbed)" where
  "InteractiveEmbed_send this user sent =
     (let post = ChannelSend (Some (ie_embed this)) in
      case sent of
        Rejected \<Rightarrow> ([Await post], Inl (CallRejected post))
      | Resolved \<Rightarrow>
          (let c = \<lparr>rc_filter = (\<lambda>reaction u. user_id u = user_id user),
                    rc_idle = 60000, rc_time = 180000\<rparr>
           in ([Await post] @ map (\<lambda>emoji. Detach (React emoji)) (ie_emojis this)
                 @ [CreateReactionCollector c],
               Inr (this\<lparr>ie_collector := Some c\<rparr>))))"

text \<open>
  The \<^verbatim>\<open>collect\<close> handler, for a reaction and the user who reacted; \<open>removed\<close> is the
  outcome of the awaited \<^verbatim>\<open>reaction.users.remove(user)\<close>.
\<close>

definition InteractiveEmbed_collect ::
  "'v InteractiveEmbed \<Rightarrow> MessageReaction \<Rightarrow> User \<Rightarrow> outcome \<Rightarrow> effect list" where
  "InteractiveEmbed_collect this reaction user removed =
     Await (UsersRemove reaction user) #
     (case removed of
        Rejected \<Rightarrow> []
      | Resolved \<Rightarrow>
          (if emoji_name reaction \<in> set (ie_emojis this)
           then [Emit (emoji_name reaction) reaction user] else []))"

text \<open>The \<^verbatim>\<open>end\<close> handler. Neither call is awaited.\<close>

definition InteractiveEmbed_end ::
  "('r, 'v) discord \<Rightarrow> 'v InteractiveEmbed \<Rightarrow> 'r heap
     \<Rightarrow> effect list \<times> 'v InteractiveEmbed \<times> 'r heap" where
  "InteractiveEmbed_end lib this h =
     (case ie_killed this of
        None \<Rightarrow> ([Detach ReactionsRemoveAll], this, h)
      | Some killed \<Rightarrow>
          (let data = spread (toJSON lib (snapshot h (ie_embed this))) killed;
               (a, h') = MessageEmbed_new lib (Options data) h
           in ([Detach ReactionsRemoveAll, Detach (MessageEdit (Some a))],
               this\<lparr>ie_embed := a\<rparr>, h')))"

subsection \<open>PaginatedEmbed\<close>

record 'v PaginatedEmbed =
  pe_collector :: "ReactionCollector option"
  pe_embeds :: "addr list"
  pe_killed :: "'v obj option"

text \<open>
  The callback of \<^verbatim>\<open>embeds.map\<close> at position \<open>i\<close> of \<open>n\<close>, on the embed object at
  \<open>a\<close>. With a footer, the text of that footer object is overwritten, \<^verbatim>\<open>undefined\<close> and
  the empty string counting as empty; without one, \<^verbatim>\<open>setFooter\<close> makes it.
\<close>

definition annotate :: "nat \<Rightarrow> nat \<Rightarrow> addr \<Rightarrow> 'r heap \<Rightarrow> 'r heap" where
  "annotate i n a h =
     (case footer (embedObjs h a) of
        Some f \<Rightarrow>
          h\<lparr>footerObjs := (footerObjs h)
              (f := (footerObjs h f)
                 \<lparr>footer_text := Some ((case footer_text (footerObjs h f) of None \<Rightarrow> '''' | Some s \<Rightarrow> s)
                                @ page_suffix i n)\<rparr>)\<rparr>
      | None \<Rightarrow> setFooter a (page_label i n) h)"

text \<open>\<^verbatim>\<open>embeds.map\<close>, from position \<open>i\<close> on: the callback on each element in order.\<close>

fun map_annotate :: "nat \<Rightarrow> nat \<Rightarrow> addr list \<Rightarrow> 'r heap \<Rightarrow> 'r heap" where
  "map_annotate i n [] h = h"
| "map_annotate i n (a # as) h = map_annotate (Suc i) n as (annotate i n a h)"

text \<open>The constructor. The array it keeps holds the same references as the caller's.\<close>

definition PaginatedEmbed_new ::
  "addr list \<Rightarrow> 'v obj option \<Rightarrow> 'r heap \<Rightarrow> error + 'v PaginatedEmbed \<times> 'r heap" where
  "PaginatedEmbed_new embeds killed h =
     (if length embeds = 0
      then Inl (Error ''At least 1 MessageEmbed must be provided in a PaginatedEmbed.'')
      else Inr (\<lparr>pe_collector = None, pe_embeds = embeds, pe_killed = killed\<rparr>,
                map_annotate 0 (length embeds) embeds h))"

text \<open>The variables of \<^verbatim>\<open>send\<close> that its two handlers share.\<close>

record closure =
  cl_index :: int
  cl_max :: int
  cl_user :: User

text \<open>
  \<^verbatim>\<open>send\<close>: the message and both reactions are awaited, one after the other, before the
  collector is created. \<open>sent\<close>, \<open>reacted1\<close> and \<open>reacted2\<close> are their outcomes.
\<close>

definition PaginatedEmbed_send ::
  "'v PaginatedEmbed \<Rightarrow> User \<Rightarrow> outcome \<Rightarrow> outcome \<Rightarrow> outcome
     \<Rightarrow> effect list \<times> (error + 'v PaginatedEmbed \<times> closure)" where
  "PaginatedEmbed_send this u sent reacted1 reacted2 =
     (let post = ChannelSend (array_get (pe_embeds this) 0) in
      case sent of
        Rejected \<Rightarrow> ([Await post], Inl (CallRejected post))
      | Resolved \<Rightarrow>
     (case reacted1 of
        Rejected \<Rightarrow> ([Await post, Await (React left_arrow)],
                     Inl (CallRejected (React left_arrow)))
      | Resolved \<Rightarrow>
     (case reacted2 of
        Rejected \<Rightarrow> ([Await post, Await (React left_arrow), Await (React right_arrow)],
                     Inl (CallRejected (React right_arrow)))
      | Resolved \<Rightarrow>
          (let c = \<lparr>rc_filter = (\<lambda>reaction u'. user_id u' = user_id u),
                    rc_idle = 60000, rc_time = 180000\<rparr>
           in ([Await post, Await (React left_arrow), Await (React right_arrow),
                CreateReactionCollector c],
               Inr (this\<lparr>pe_collector := Some c\<rparr>,
                    \<lparr>cl_index = 0, cl_max = int (length (pe_embeds this)) - 1, cl_user = u\<rparr>))))))"

text \<open>The index after a reaction with the given emoji name.\<close>

definition turn :: "closure \<Rightarrow> string \<Rightarrow> int" where
  "turn cl name =
     (if name = left_arrow then (if cl_index cl - 1 < 0 then cl_max cl else cl_index cl - 1)
      else if name = right_arrow then (if cl_index cl + 1 > cl_max cl then 0 else cl_index cl + 1)
      else cl_index cl)"

text \<open>
  The \<^verbatim>\<open>collect\<close> handler. It removes the reaction of \<^verbatim>\<open>user\<close>, the user given to
  \<^verbatim>\<open>send\<close>; \<open>removed\<close> is the outcome of that awaited call. After it the index is
  read, written and passed to the edit without a pause in between. The edit is awaited
  last, so its outcome changes nothing here.
\<close>

definition PaginatedEmbed_collect ::
  "'v PaginatedEmbed \<Rightarrow> closure \<Rightarrow> MessageReaction \<Rightarrow> outcome \<Rightarrow> effect list \<times> closure" where
  "PaginatedEmbed_collect this cl reaction removed =
     (case removed of
        Rejected \<Rightarrow> ([Await (UsersRemove reaction (cl_user cl))], cl)
      | Resolved \<Rightarrow>
          (let i = turn cl (emoji_name reaction) in
           ([Await (UsersRemove reaction (cl_user cl)),
             Await (MessageEdit (array_get (pe_embeds this) i))],
            cl\<lparr>cl_index := i\<rparr>)))"

text \<open>The handler on a sequence of collected reactions, each with its outcome.\<close>

fun collect_all ::
  "'v PaginatedEmbed \<Rightarrow> closure \<Rightarrow> (MessageReaction \<times> outcome) list \<Rightarrow> closure" where
  "collect_all this cl [] = cl"
| "collect_all this cl ((reaction, removed) # rs) =
     collect_all this (snd (PaginatedEmbed_collect this cl reaction removed)) rs"

text \<open>
  The \<^verbatim>\<open>end\<close> handler. Reading \<^verbatim>\<open>toJSON\<close> off \<^verbatim>\<open>undefined\<close> throws; the new embed is
  passed to the edit and kept nowhere else.
\<close>

definition PaginatedEmbed_end ::
  "('r, 'v) discord \<Rightarrow> 'v PaginatedEmbed \<Rightarrow> closure \<Rightarrow> 'r heap
     \<Rightarrow> effect list \<times> (error + 'r heap)" where
  "PaginatedEmbed_end lib this cl h =
     (case pe_killed this of
        None \<Rightarrow> ([Detach ReactionsRemoveAll], Inr h)
      | Some killed \<Rightarrow>
          (case array_get (pe_embeds this) (cl_index cl) of
             None \<Rightarrow> ([Detach ReactionsRemoveAll], Inl TypeError)
           | Some cur \<Rightarrow>
               (let data = spread (toJSON lib (snapshot h cur)) killed;
                    (a, h') = MessageEmbed_new lib (Options data) h
                in ([Detach ReactionsRemoveAll, Detach (MessageEdit (Some a))], Inr h'))))"

subsection \<open>Reading the store\<close>

text \<open>\<^verbatim>\<open>embed.footer.text\<close>, with \<open>None\<close> when there is no footer or no text.\<close>

definition footer_text_of :: "'r heap \<Rightarrow> addr \<Rightarrow> string option" where
  "footer_text_of h a =
     (case footer (embedObjs h a) of None \<Rightarrow> None | Some f \<Rightarrow> footer_text (footerObjs h f))"

text \<open>
  The footer text of the embed at \<open>a\<close> once the callback has run on it at position
  \<open>i\<close> of \<open>n\<close>, read off the store before the callback.
\<close>

definition annotated_text :: "'r heap \<Rightarrow> nat \<Rightarrow> nat \<Rightarrow> addr \<Rightarrow> string" where
  "annotated_text h i n a =
     (case footer (embedObjs h a) of
        None \<Rightarrow> page_label i n
      | Some f \<Rightarrow> (case footer_text (footerObjs h f) of None \<Rightarrow> '''' | Some s \<Rightarrow> s)
                   @ page_suffix i n)"

text \<open>
  No sharing in an array of embeds: no embed object at two positions, no footer object
  under two of the embeds, and every footer object among the objects in use.
\<close>

definition unshared :: "'r heap \<Rightarrow> addr list \<Rightarrow> bool" where
  "unshared h as \<longleftrightarrow>
     distinct as
     \<and> (\<forall>a\<in>set as. \<forall>b\<in>set as. a \<noteq> b \<longrightarrow>
           footer (embedObjs h a) = None \<or> footer (embedObjs h a) \<noteq> footer (embedObjs h b))
     \<and> (\<forall>a\<in>set as. case footer (embedObjs h a) of None \<Rightarrow> True | Some f \<Rightarrow> f < nextAddr h)"


text \<open>Every object in use in \<open>h\<close> is the same in \<open>h'\<close>: only new objects were added.\<close>

definition same_objects :: "'r heap \<Rightarrow> 'r heap \<Rightarrow> bool" where
  "same_objects h h' \<longleftrightarrow>
     nextAddr h \<le> nextAddr h'
     \<and> (\<forall>a\<in>{0..<nextAddr h}.
           embedObjs h' a = embedObjs h a \<and> footerObjs h' a = footerObjs h a)"

subsection \<open>What is on the message when the collector is created\<close>

text \<open>
  A reaction is attached when its \<^verbatim>\<open>message.react\<close> call resolves. Where the trace
  goes on after an awaited call, that call has resolved. A detached call settles
  whenever the library gets to it: \<open>early e\<close> tells whether the detached call for the
  emoji \<open>e\<close> has resolved by the time the collector is created. The reactions attached
  at that time are those of the calls before the creation of the collector; there is no
  such time (\<open>None\<close>) in a trace that creates no collector.
\<close>

fun is_creation :: "effect \<Rightarrow> bool" where
  "is_creation (CreateReactionCollector c) = True"
| "is_creation (Await c) = False"
| "is_creation (Detach c) = False"
| "is_creation (Emit name reaction u) = False"

fun attached :: "(string \<Rightarrow> bool) \<Rightarrow> effect \<Rightarrow> string list" where
  "attached early (Await (React e)) = [e]"
| "attached early (Detach (React e)) = (if early e then [e] else [])"
| "attached early x = []"

definition attached_at_creation ::
  "(string \<Rightarrow> bool) \<Rightarrow> effect list \<Rightarrow> string list option" where
  "attached_at_creation early tr =
     (if list_ex is_creation tr
      then Some (concat (map (attached early) (takeWhile (\<lambda>x. \<not> is_creation x) tr)))
      else None)"

subsection \<open>Concrete objects\<close>

text \<open>
  Three embeds at the addresses 0, 1 and 2, titled \<open>page\<close>. The second has a footer,
  the object at 3, with the text \<open>Notes\<close>.
\<close>

definition ex_heap :: "string heap" where
  "ex_heap =
     \<lparr>embedObjs = (\<lambda>a. \<lparr>footer = (if a = 1 then Some 3 else None), content = ''page''\<rparr>),
      footerObjs = (\<lambda>f. \<lparr>footer_text = (if f = 3 then Some ''Notes'' else None),
                          iconURL = None, proxyIconURL = None\<rparr>),
      nextAddr = 4\<rparr>"

text \<open>A library whose embeds have a title and a footer, and serialise to the title.\<close>

definition ex_lib :: "(string, string) discord" where
  "ex_lib =
     \<lparr>toJSON = (\<lambda>v. [''title'' \<mapsto> fst v]),
      construct = (\<lambda>x. case x of
                          Inl v \<Rightarrow> v
                        | Inr d \<Rightarrow> (case d ''title'' of None \<Rightarrow> [] | Some t \<Rightarrow> t, None))\<rparr>"

definition ex_patch :: "string obj" where
  "ex_patch = [''title'' \<mapsto> ''Closed'']"

definition ex_user :: User where
  "ex_user = \<lparr>user_id = ''42'', username = ''ann''\<rparr>"

definition ex_reaction :: "string \<Rightarrow> MessageReaction" where
  "ex_reaction name = \<lparr>emoji_name = name\<rparr>"

definition ex_collector :: ReactionCollector where
  "ex_collector =
     \<lparr>rc_filter = (\<lambda>reaction u'. user_id u' = user_id ex_user),
      rc_idle = 60000, rc_time = 180000\<rparr>"

definition ex_pager :: "string PaginatedEmbed" where
  "ex_pager = \<lparr>pe_collector = None, pe_embeds = [0, 1, 2], pe_killed = None\<rparr>"

definition ex_interactive :: "string InteractiveEmbed" where
  "ex_interactive =
     \<lparr>ie_collector = None, ie_embed = 0, ie_emojis = [''yes'', ''no''], ie_killed = None\<rparr>"

definition ex_created :: "string InteractiveEmbed \<times> string heap" where
  "ex_created = InteractiveEmbed_new ex_lib [''yes'', ''no''] (Embed 1) (Some ex_patch) ex_heap"


section \<open>The page index\<close>

lemma arrows_differ: "left_arrow \<noteq> right_arrow"
  by (simp add: left_arrow_def right_arrow_def)

lemma turn_left:
  "turn cl left_arrow = (if cl_index cl - 1 < 0 then cl_max cl else cl_index cl - 1)"
  by (simp add: turn_def)

lemma turn_right:
  "turn cl right_arrow = (if cl_index cl + 1 > cl_max cl then 0 else cl_index cl + 1)"
  by (simp add: turn_def arrows_differ [symmetric])

lemma turn_other:
  "name \<noteq> left_arrow \<Longrightarrow> name \<noteq> right_arrow \<Longrightarrow> turn cl name = cl_index cl"
  by (simp add: turn_def)

lemma turn_in_range:
  "0 \<le> cl_max cl \<Longrightarrow> 0 \<le> cl_index cl \<Longrightarrow> cl_index cl \<le> cl_max cl
     \<Longrightarrow> 0 \<le> turn cl name \<and> turn cl name \<le> cl_max cl"
  by (simp add: turn_def)

lemma collect_max: "cl_max (snd (PaginatedEmbed_collect this cl r out)) = cl_max cl"
  by (cases out) (simp_all add: PaginatedEmbed_collect_def Let_def)

lemma collect_in_range:
  "0 \<le> cl_max cl \<Longrightarrow> 0 \<le> cl_index cl \<Longrightarrow> cl_index cl \<le> cl_max cl
     \<Longrightarrow> 0 \<le> cl_index (snd (PaginatedEmbed_collect this cl r out))
       \<and> cl_index (snd (PaginatedEmbed_collect this cl r out)) \<le> cl_max cl"
  using turn_in_range [of cl "emoji_name r"]
  by (cases out) (simp_all add: PaginatedEmbed_collect_def Let_def)

text \<open>The range is an invariant of the handler, whatever the reactions and outcomes.\<close>

lemma collect_all_in_range:
  "0 \<le> cl_max cl \<Longrightarrow> 0 \<le> cl_index cl \<Longrightarrow> cl_index cl \<le> cl_max cl
     \<Longrightarrow> 0 \<le> cl_index (collect_all this cl rs)
       \<and> cl_index (collect_all this cl rs) \<le> cl_max cl"
proof (induction rs arbitrary: cl)
  case Nil
  then show ?case by simp
next
  case (Cons x rs)
  obtain r out where x: "x = (r, out)" by (cases x)
  let ?cl = "snd (PaginatedEmbed_collect this cl r out)"
  have "0 \<le> cl_index ?cl \<and> cl_index ?cl \<le> cl_max cl"
    using Cons.prems by (rule collect_in_range)
  moreover have "cl_max ?cl = cl_max cl" by (rule collect_max)
  ultimately have "0 \<le> cl_index (collect_all this ?cl rs)
      \<and> cl_index (collect_all this ?cl rs) \<le> cl_max ?cl"
    using Cons.prems(1) Cons.IH [of ?cl] by simp
  then show ?case by (simp add: x collect_max)
qed

lemma collect_user: "cl_user (snd (PaginatedEmbed_collect this cl r out)) = cl_user cl"
  by (cases out) (simp_all add: PaginatedEmbed_collect_def Let_def)

lemma collect_all_fixed:
  "cl_max (collect_all this cl rs) = cl_max cl \<and> cl_user (collect_all this cl rs) = cl_user cl"
proof (induction rs arbitrary: cl)
  case Nil
  then show ?case by simp
next
  case (Cons x rs)
  obtain r out where x: "x = (r, out)" by (cases x)
  show ?case
    using Cons.IH [of "snd (PaginatedEmbed_collect this cl r out)"]
    by (simp add: x collect_max collect_user)
qed

text \<open>What \<^verbatim>\<open>send\<close> hands to its handlers when it returns.\<close>

lemma send_closure:
  assumes "PaginatedEmbed_send this u sent reacted1 reacted2 = (tr, Inr (this', cl))"
  shows "cl_index cl = 0" and "cl_max cl = int (length (pe_embeds this)) - 1"
    and "cl_user cl = u" and "pe_embeds this' = pe_embeds this"
  using assms by (auto simp: PaginatedEmbed_send_def Let_def split: outcome.splits)

text \<open>Every state the handlers can reach after a constructor that returned.\<close>

lemma reachable_closure:
  assumes "PaginatedEmbed_new embeds killed h = Inr (this, h')"
    and "PaginatedEmbed_send this u sent reacted1 reacted2 = (tr, Inr (this', cl0))"
  shows "pe_embeds this' = embeds" and "embeds \<noteq> []"
    and "cl_max (collect_all this' cl0 rs) = int (length embeds) - 1"
    and "cl_user (collect_all this' cl0 rs) = u"
    and "0 \<le> cl_index (collect_all this' cl0 rs)"
    and "cl_index (collect_all this' cl0 rs) \<le> int (length embeds) - 1"
proof -
  show ne: "embeds \<noteq> []" and e: "pe_embeds this' = embeds"
    using assms(1) send_closure(4) [OF assms(2)]
    by (auto simp: PaginatedEmbed_new_def split: if_splits)
  have m: "cl_max cl0 = int (length embeds) - 1"
    using assms(1) send_closure(2) [OF assms(2)]
    by (auto simp: PaginatedEmbed_new_def split: if_splits)
  show "cl_max (collect_all this' cl0 rs) = int (length embeds) - 1"
    and "cl_user (collect_all this' cl0 rs) = u"
    using m send_closure(3) [OF assms(2)] by (simp_all add: collect_all_fixed)
  have "0 \<le> cl_max cl0" using m ne by (cases embeds) simp_all
  then have "0 \<le> cl_index (collect_all this' cl0 rs)
      \<and> cl_index (collect_all this' cl0 rs) \<le> cl_max cl0"
    using send_closure(1) [OF assms(2)] by (intro collect_all_in_range) simp_all
  then show "0 \<le> cl_index (collect_all this' cl0 rs)"
    and "cl_index (collect_all this' cl0 rs) \<le> int (length embeds) - 1"
    using m by simp_all
qed

text \<open>In every such state the page at the current index exists.\<close>

lemma reachable_page:
  assumes "PaginatedEmbed_new embeds killed h = Inr (this, h')"
    and "PaginatedEmbed_send this u sent reacted1 reacted2 = (tr, Inr (this', cl0))"
  shows "array_get (pe_embeds this') (cl_index (collect_all this' cl0 rs))
           = Some (embeds ! nat (cl_index (collect_all this' cl0 rs)))"
  using reachable_closure(1) [OF assms] reachable_closure(5,6) [OF assms, of rs]
  by (simp add: array_get_def)

text \<open>
  C1. Take a paginator that the constructor accepted, over \<open>n\<close> embeds, after
  \<^verbatim>\<open>send\<close> and any sequence of collected reactions, with the index now at \<open>i\<close>.
  Once the reaction has been removed, a left arrow moves the index to \<open>n - 1\<close> from 0
  and to \<open>i - 1\<close> from anywhere else, a right arrow moves it to 0 from \<open>n - 1\<close> and
  to \<open>i + 1\<close> from anywhere else; the handler then edits the message to the embed at
  the new index, and does nothing more.
\<close>

theorem paginated_arrow_transition:
  assumes "PaginatedEmbed_new embeds killed h = Inr (this, h')"
    and "PaginatedEmbed_send this u sent reacted1 reacted2 = (tr, Inr (this', cl0))"
    and "cl = collect_all this' cl0 rs"
    and "n = length embeds" and "i = nat (cl_index cl)"
  shows "(emoji_name r = left_arrow \<longrightarrow>
           PaginatedEmbed_collect this' cl r Resolved =
             ([Await (UsersRemove r u),
               Await (MessageEdit (Some (embeds ! (if i = 0 then n - 1 else i - 1))))],
              cl\<lparr>cl_index := int (if i = 0 then n - 1 else i - 1)\<rparr>))
       \<and> (emoji_name r = right_arrow \<longrightarrow>
           PaginatedEmbed_collect this' cl r Resolved =
             ([Await (UsersRemove r u),
               Await (MessageEdit (Some (embeds ! (if i = n - 1 then 0 else i + 1))))],
              cl\<lparr>cl_index := int (if i = n - 1 then 0 else i + 1)\<rparr>))"
proof -
  have e: "pe_embeds this' = embeds"
    by (rule reachable_closure(1) [OF assms(1,2)])
  have m: "cl_max cl = int n - 1" and us: "cl_user cl = u"
    using reachable_closure(3,4) [OF assms(1,2), of rs] assms(3,4) by simp_all
  have "0 \<le> cl_index cl" and "cl_index cl \<le> int n - 1"
    using reachable_closure(5,6) [OF assms(1,2), of rs] assms(3,4) by simp_all
  then have i: "cl_index cl = int i" and lt: "i < n"
    using assms(5) by simp_all
  show ?thesis
  proof (intro conjI impI)
    assume l: "emoji_name r = left_arrow"
    have "turn cl left_arrow = int (if i = 0 then n - 1 else i - 1)"
      using m i lt by (auto simp: turn_left)
    then show "PaginatedEmbed_collect this' cl r Resolved =
             ([Await (UsersRemove r u),
               Await (MessageEdit (Some (embeds ! (if i = 0 then n - 1 else i - 1))))],
              cl\<lparr>cl_index := int (if i = 0 then n - 1 else i - 1)\<rparr>)"
      using e us lt l assms(4)
      by (auto simp: PaginatedEmbed_collect_def array_get_def Let_def)
  next
    assume l: "emoji_name r = right_arrow"
    have "turn cl right_arrow = int (if i = n - 1 then 0 else i + 1)"
      using m i lt by (auto simp: turn_right)
    then show "PaginatedEmbed_collect this' cl r Resolved =
             ([Await (UsersRemove r u),
               Await (MessageEdit (Some (embeds ! (if i = n - 1 then 0 else i + 1))))],
              cl\<lparr>cl_index := int (if i = n - 1 then 0 else i + 1)\<rparr>)"
      using e us lt l assms(4)
      by (auto simp: PaginatedEmbed_collect_def array_get_def Let_def)
  qed
qed

text \<open>
  C1 on three embeds, right after \<^verbatim>\<open>send\<close>: a left arrow at the first page shows the
  last; and after two right arrows, a third one at the last page shows the first.
\<close>

theorem paginated_arrow_transition_witness:
  "PaginatedEmbed_collect (ex_pager\<lparr>pe_collector := Some ex_collector\<rparr>)
      \<lparr>cl_index = 0, cl_max = 2, cl_user = ex_user\<rparr> (ex_reaction left_arrow) Resolved =
     ([Await (UsersRemove (ex_reaction left_arrow) ex_user), Await (MessageEdit (Some 2))],
      \<lparr>cl_index = 2, cl_max = 2, cl_user = ex_user\<rparr>)
   \<and> PaginatedEmbed_collect (ex_pager\<lparr>pe_collector := Some ex_collector\<rparr>)
      \<lparr>cl_index = 2, cl_max = 2, cl_user = ex_user\<rparr> (ex_reaction right_arrow) Resolved =
     ([Await (UsersRemove (ex_reaction right_arrow) ex_user), Await (MessageEdit (Some 0))],
      \<lparr>cl_index = 0, cl_max = 2, cl_user = ex_user\<rparr>)"
proof -
  let ?cl0 = "\<lparr>cl_index = 0, cl_max = 2, cl_user = ex_user\<rparr>"
  let ?p = "ex_pager\<lparr>pe_collector := Some ex_collector\<rparr>"
  let ?rs = "[(ex_reaction right_arrow, Resolved), (ex_reaction right_arrow, Resolved)]"
  have new: "PaginatedEmbed_new [0, 1, 2] (None :: string obj option) ex_heap =
     Inr (ex_pager, map_annotate 0 3 [0, 1, 2] ex_heap)"
    by (simp add: PaginatedEmbed_new_def ex_pager_def numeral_3_eq_3 del: map_annotate.simps)
  have send: "PaginatedEmbed_send ex_pager ex_user Resolved Resolved Resolved =
     ([Await (ChannelSend (Some 0)), Await (React left_arrow), Await (React right_arrow),
       CreateReactionCollector ex_collector],
      Inr (?p, ?cl0))"
    by (simp add: PaginatedEmbed_send_def ex_pager_def ex_collector_def array_get_def Let_def)
  have c0: "?cl0 = collect_all ?p ?cl0 []"
    by simp
  have c2: "\<lparr>cl_index = 2, cl_max = 2, cl_user = ex_user\<rparr> = collect_all ?p ?cl0 ?rs"
    by (simp add: PaginatedEmbed_collect_def turn_right ex_reaction_def)
  have l: "emoji_name (ex_reaction left_arrow) = left_arrow"
    and r: "emoji_name (ex_reaction right_arrow) = right_arrow"
    by (simp_all add: ex_reaction_def)
  have n3: "3 = length [0, 1, 2 :: nat]" by simp
  have i0: "0 = nat (cl_index ?cl0)"
    and i2: "2 = nat (cl_index \<lparr>cl_index = 2, cl_max = 2, cl_user = ex_user\<rparr>)"
    by simp_all
  from paginated_arrow_transition [OF new send c0 n3 i0, of "ex_reaction left_arrow"] l
  have "PaginatedEmbed_collect ?p ?cl0 (ex_reaction left_arrow) Resolved =
     ([Await (UsersRemove (ex_reaction left_arrow) ex_user), Await (MessageEdit (Some 2))],
      \<lparr>cl_index = 2, cl_max = 2, cl_user = ex_user\<rparr>)"
    by simp
  moreover
  from paginated_arrow_transition [OF new send c2 n3 i2, of "ex_reaction right_arrow"] r
  have "PaginatedEmbed_collect ?p \<lparr>cl_index = 2, cl_max = 2, cl_user = ex_user\<rparr>
          (ex_reaction right_arrow) Resolved =
     ([Await (UsersRemove (ex_reaction right_arrow) ex_user), Await (MessageEdit (Some 0))],
      \<lparr>cl_index = 0, cl_max = 2, cl_user = ex_user\<rparr>)"
    by simp
  ultimately show ?thesis by simp
qed

text \<open>
  C9. For a paginator that the constructor accepted, so over \<open>n \<ge> 1\<close> embeds, the
  index is 0 when \<^verbatim>\<open>send\<close> returns, and after any sequence of collected reactions,
  whatever their emojis and the outcomes of their removals, it lies between 0 and
  \<open>n - 1\<close>.
\<close>

theorem paginated_index_in_range:
  assumes "PaginatedEmbed_new embeds killed h = Inr (this, h')"
    and "PaginatedEmbed_send this u sent reacted1 reacted2 = (tr, Inr (this', cl))"
  shows "cl_index cl = 0 \<and> 0 \<le> cl_index (collect_all this' cl rs)
           \<and> cl_index (collect_all this' cl rs) \<le> int (length embeds) - 1"
  using send_closure(1) [OF assms(2)] reachable_closure(5,6) [OF assms]
  by simp

text \<open>C9 on three embeds and three right arrows, which go round once.\<close>

theorem paginated_index_in_range_witness:
  "PaginatedEmbed_new [0, 1, 2] (None :: string obj option) ex_heap =
     Inr (ex_pager, map_annotate 0 3 [0, 1, 2] ex_heap)
   \<and> 0 \<le> cl_index (collect_all (ex_pager\<lparr>pe_collector := Some ex_collector\<rparr>)
         \<lparr>cl_index = 0, cl_max = 2, cl_user = ex_user\<rparr>
         [(ex_reaction right_arrow, Resolved), (ex_reaction right_arrow, Resolved),
          (ex_reaction right_arrow, Resolved)])
   \<and> cl_index (collect_all (ex_pager\<lparr>pe_collector := Some ex_collector\<rparr>)
         \<lparr>cl_index = 0, cl_max = 2, cl_user = ex_user\<rparr>
         [(ex_reaction right_arrow, Resolved), (ex_reaction right_arrow, Resolved),
          (ex_reaction right_arrow, Resolved)]) \<le> int (length [0, 1, 2 :: nat]) - 1"
proof -
  have new: "PaginatedEmbed_new [0, 1, 2] (None :: string obj option) ex_heap =
     Inr (ex_pager, map_annotate 0 3 [0, 1, 2] ex_heap)"
    by (simp add: PaginatedEmbed_new_def ex_pager_def numeral_3_eq_3 del: map_annotate.simps)
  have send: "PaginatedEmbed_send ex_pager ex_user Resolved Resolved Resolved =
     ([Await (ChannelSend (Some 0)), Await (React left_arrow), Await (React right_arrow),
       CreateReactionCollector ex_collector],
      Inr (ex_pager\<lparr>pe_collector := Some ex_collector\<rparr>,
           \<lparr>cl_index = 0, cl_max = 2, cl_user = ex_user\<rparr>))"
    by (simp add: PaginatedEmbed_send_def ex_pager_def ex_collector_def array_get_def Let_def)
  show ?thesis
    using new paginated_index_in_range [OF new send,
        of "[(ex_reaction right_arrow, Resolved), (ex_reaction right_arrow, Resolved),
             (ex_reaction right_arrow, Resolved)]"]
    by blast
qed

text \<open>
  C7, as the code has it. Take a paginator that the constructor accepted, after
  \<^verbatim>\<open>send\<close> and any sequence of collected reactions. A reaction that passes the filter
  and is neither arrow has the reaction of the authorized user removed, who has the id
  of the user that reacted, and leaves the index where it was. The handler then still
  edits the message, to the embed at that index; it makes no other call.
\<close>

theorem paginated_other_reaction:
  assumes "PaginatedEmbed_new embeds killed h = Inr (this, h')"
    and "PaginatedEmbed_send this u sent reacted1 reacted2 = (tr, Inr (this', cl0))"
    and "cl = collect_all this' cl0 rs"
    and "pe_collector this' = Some c" and "rc_filter c r reacting"
    and "emoji_name r \<noteq> left_arrow" and "emoji_name r \<noteq> right_arrow"
  shows "PaginatedEmbed_collect this' cl r Resolved =
           ([Await (UsersRemove r u),
             Await (MessageEdit (Some (embeds ! nat (cl_index cl))))], cl)
         \<and> user_id u = user_id reacting"
proof -
  have "rc_filter c = (\<lambda>reaction u'. user_id u' = user_id u)"
    using assms(2,4) by (auto simp: PaginatedEmbed_send_def Let_def split: outcome.splits)
  then have id: "user_id u = user_id reacting"
    using assms(5) by simp
  have e: "pe_embeds this' = embeds"
    by (rule reachable_closure(1) [OF assms(1,2)])
  have us: "cl_user cl = u"
    using reachable_closure(4) [OF assms(1,2), of rs] assms(3) by simp
  have "0 \<le> cl_index cl" and "cl_index cl \<le> int (length embeds) - 1"
    using reachable_closure(5,6) [OF assms(1,2), of rs] assms(3) by simp_all
  then have "array_get embeds (cl_index cl) = Some (embeds ! nat (cl_index cl))"
    by (simp add: array_get_def)
  then show ?thesis
    using id e us assms(6,7) by (simp add: PaginatedEmbed_collect_def turn_other Let_def)
qed

text \<open>C7 on a reaction named \<open>x\<close>, collected after one right arrow.\<close>

theorem paginated_other_reaction_witness:
  "rc_filter ex_collector (ex_reaction ''x'') ex_user
   \<and> PaginatedEmbed_collect (ex_pager\<lparr>pe_collector := Some ex_collector\<rparr>)
         \<lparr>cl_index = 1, cl_max = 2, cl_user = ex_user\<rparr> (ex_reaction ''x'') Resolved =
       ([Await (UsersRemove (ex_reaction ''x'') ex_user), Await (MessageEdit (Some 1))],
        \<lparr>cl_index = 1, cl_max = 2, cl_user = ex_user\<rparr>)"
proof -
  let ?cl0 = "\<lparr>cl_index = 0, cl_max = 2, cl_user = ex_user\<rparr>"
  let ?p = "ex_pager\<lparr>pe_collector := Some ex_collector\<rparr>"
  have new: "PaginatedEmbed_new [0, 1, 2] (None :: string obj option) ex_heap =
     Inr (ex_pager, map_annotate 0 3 [0, 1, 2] ex_heap)"
    by (simp add: PaginatedEmbed_new_def ex_pager_def numeral_3_eq_3 del: map_annotate.simps)
  have send: "PaginatedEmbed_send ex_pager ex_user Resolved Resolved Resolved =
     ([Await (ChannelSend (Some 0)), Await (React left_arrow), Await (React right_arrow),
       CreateReactionCollector ex_collector],
      Inr (?p, ?cl0))"
    by (simp add: PaginatedEmbed_send_def ex_pager_def ex_collector_def array_get_def Let_def)
  have c1: "\<lparr>cl_index = 1, cl_max = 2, cl_user = ex_user\<rparr>
              = collect_all ?p ?cl0 [(ex_reaction right_arrow, Resolved)]"
    by (simp add: PaginatedEmbed_collect_def turn_right ex_reaction_def)
  have f: "rc_filter ex_collector (ex_reaction ''x'') ex_user"
    by (simp add: ex_collector_def)
  have l: "emoji_name (ex_reaction ''x'') \<noteq> left_arrow"
    and r: "emoji_name (ex_reaction ''x'') \<noteq> right_arrow"
    by (simp_all add: ex_reaction_def left_arrow_def right_arrow_def)
  have "pe_collector ?p = Some ex_collector"
    by simp
  from paginated_other_reaction [OF new send c1 this f l r] f show ?thesis
    by simp
qed

text \<open>
  C7 as stated fails: on the second of three pages, a reaction named \<open>x\<close> makes the
  handler edit the message, so the removal is not its only effect.
\<close>

theorem paginated_other_reaction_edits:
  "emoji_name (ex_reaction ''x'') \<noteq> left_arrow
   \<and> emoji_name (ex_reaction ''x'') \<noteq> right_arrow
   \<and> fst (PaginatedEmbed_collect ex_pager \<lparr>cl_index = 1, cl_max = 2, cl_user = ex_user\<rparr>
           (ex_reaction ''x'') Resolved)
       = [Await (UsersRemove (ex_reaction ''x'') ex_user), Await (MessageEdit (Some 1))]
   \<and> fst (PaginatedEmbed_collect ex_pager \<lparr>cl_index = 1, cl_max = 2, cl_user = ex_user\<rparr>
           (ex_reaction ''x'') Resolved)
       \<noteq> [Await (UsersRemove (ex_reaction ''x'') ex_user)]"
  by (simp add: PaginatedEmbed_collect_def turn_def ex_reaction_def left_arrow_def
        right_arrow_def ex_pager_def array_get_def Let_def)

section \<open>Events and the collector\<close>

text \<open>
  C2. Take an InteractiveEmbed constructed with the emojis \<open>E\<close> and sent. Its handler
  first calls for the removal of the reacting user's reaction, whatever follows. Once
  that call has resolved, a reaction whose emoji is in \<open>E\<close> is emitted once, under
  the emoji's name and with the reaction and the user; for an emoji outside \<open>E\<close>
  nothing is emitted.
\<close>

theorem interactive_collect_emits:
  assumes "InteractiveEmbed_new lib E x killed h = (ie, h1)"
    and "InteractiveEmbed_send ie user sent = (tr, Inr ie')"
  shows "hd (InteractiveEmbed_collect ie' r u removed) = Await (UsersRemove r u)
   \<and> (emoji_name r \<in> set E \<longrightarrow>
        InteractiveEmbed_collect ie' r u Resolved =
          [Await (UsersRemove r u), Emit (emoji_name r) r u])
   \<and> (emoji_name r \<notin> set E \<longrightarrow>
        InteractiveEmbed_collect ie' r u removed = [Await (UsersRemove r u)])"
proof -
  have "ie_emojis ie = E"
    using assms(1) by (auto simp: InteractiveEmbed_new_def split: prod.splits)
  moreover have "ie_emojis ie' = ie_emojis ie"
    using assms(2) by (auto simp: InteractiveEmbed_send_def Let_def split: outcome.splits)
  ultimately have "ie_emojis ie' = E" by simp
  then show ?thesis
    by (cases removed) (simp_all add: InteractiveEmbed_collect_def)
qed

text \<open>C2 with the emojis \<open>yes\<close> and \<open>no\<close>: \<open>yes\<close> is emitted, \<open>maybe\<close> is not.\<close>

theorem interactive_collect_emits_witness:
  "InteractiveEmbed_collect (fst ex_created\<lparr>ie_collector := Some ex_collector\<rparr>)
      (ex_reaction ''yes'') ex_user Resolved =
     [Await (UsersRemove (ex_reaction ''yes'') ex_user),
      Emit ''yes'' (ex_reaction ''yes'') ex_user]
   \<and> InteractiveEmbed_collect (fst ex_created\<lparr>ie_collector := Some ex_collector\<rparr>)
      (ex_reaction ''maybe'') ex_user Resolved =
     [Await (UsersRemove (ex_reaction ''maybe'') ex_user)]"
proof -
  have new: "InteractiveEmbed_new ex_lib [''yes'', ''no''] (Embed 1) (Some ex_patch) ex_heap
          = (fst ex_created, snd ex_created)"
    by (simp add: ex_created_def)
  have send: "InteractiveEmbed_send (fst ex_created) ex_user Resolved =
     (Await (ChannelSend (Some (ie_embed (fst ex_created))))
        # map (\<lambda>emoji. Detach (React emoji)) (ie_emojis (fst ex_created))
        @ [CreateReactionCollector ex_collector],
      Inr (fst ex_created\<lparr>ie_collector := Some ex_collector\<rparr>))"
    by (simp add: InteractiveEmbed_send_def ex_collector_def Let_def)
  show ?thesis
    using interactive_collect_emits [OF new send, of "ex_reaction ''yes''" ex_user Resolved]
          interactive_collect_emits [OF new send, of "ex_reaction ''maybe''" ex_user Resolved]
    by (simp add: ex_reaction_def)
qed

text \<open>
  C5. When its awaited calls resolve, either \<^verbatim>\<open>send\<close> returns its instance after
  creating one collector, which it keeps in the instance. That collector has an idle
  timeout of 60 seconds and a total of 180 seconds, and its filter accepts exactly the
  reactions of users with the authorized user's id; the reaction itself plays no
  part. No run of either \<^verbatim>\<open>send\<close>, whatever the outcomes, creates a collector
  configured otherwise.
\<close>

theorem collector_configuration:
  "(\<exists>c tr. InteractiveEmbed_send ie user Resolved = (tr, Inr (ie\<lparr>ie_collector := Some c\<rparr>))
        \<and> CreateReactionCollector c \<in> set tr
        \<and> (\<forall>c'. CreateReactionCollector c' \<in> set tr \<longrightarrow> c' = c)
        \<and> rc_idle c = 60 * 1000 \<and> rc_time c = 180 * 1000
        \<and> (\<forall>r u. rc_filter c r u = (user_id u = user_id user)))
   \<and> (\<exists>c tr cl. PaginatedEmbed_send pe user Resolved Resolved Resolved
                     = (tr, Inr (pe\<lparr>pe_collector := Some c\<rparr>, cl))
        \<and> CreateReactionCollector c \<in> set tr
        \<and> (\<forall>c'. CreateReactionCollector c' \<in> set tr \<longrightarrow> c' = c)
        \<and> rc_idle c = 60 * 1000 \<and> rc_time c = 180 * 1000
        \<and> (\<forall>r u. rc_filter c r u = (user_id u = user_id user)))
   \<and> (\<forall>c. CreateReactionCollector c \<in> set (fst (InteractiveEmbed_send ie user sent))
            \<or> CreateReactionCollector c
                 \<in> set (fst (PaginatedEmbed_send pe user sent reacted1 reacted2))
          \<longrightarrow> rc_idle c = 60 * 1000 \<and> rc_time c = 180 * 1000
              \<and> (\<forall>r u. rc_filter c r u = (user_id u = user_id user)))"
proof (intro conjI)
  let ?c = "\<lparr>rc_filter = (\<lambda>reaction u. user_id u = user_id user),
             rc_idle = 60000, rc_time = 180000\<rparr>"
  let ?tr = "Await (ChannelSend (Some (ie_embed ie)))
             # map (\<lambda>emoji. Detach (React emoji)) (ie_emojis ie)
             @ [CreateReactionCollector ?c]"
  have eq: "InteractiveEmbed_send ie user Resolved = (?tr, Inr (ie\<lparr>ie_collector := Some ?c\<rparr>))"
    by (simp add: InteractiveEmbed_send_def Let_def)
  have mem: "CreateReactionCollector ?c \<in> set ?tr"
    by simp
  have uniq: "\<forall>c'. CreateReactionCollector c' \<in> set ?tr \<longrightarrow> c' = ?c"
    by auto
  have cfg: "rc_idle ?c = 60 * 1000 \<and> rc_time ?c = 180 * 1000
        \<and> (\<forall>r u. rc_filter ?c r u = (user_id u = user_id user))"
    by simp
  show "\<exists>c tr. InteractiveEmbed_send ie user Resolved
                  = (tr, Inr (ie\<lparr>ie_collector := Some c\<rparr>))
        \<and> CreateReactionCollector c \<in> set tr
        \<and> (\<forall>c'. CreateReactionCollector c' \<in> set tr \<longrightarrow> c' = c)
        \<and> rc_idle c = 60 * 1000 \<and> rc_time c = 180 * 1000
        \<and> (\<forall>r u. rc_filter c r u = (user_id u = user_id user))"
    using eq mem uniq cfg by (intro exI [of _ ?c] exI [of _ ?tr]) blast
next
  let ?c = "\<lparr>rc_filter = (\<lambda>reaction u. user_id u = user_id user),
             rc_idle = 60000, rc_time = 180000\<rparr>"
  let ?tr = "[Await (ChannelSend (array_get (pe_embeds pe) 0)), Await (React left_arrow),
              Await (React right_arrow), CreateReactionCollector ?c]"
  let ?cl = "\<lparr>cl_index = 0, cl_max = int (length (pe_embeds pe)) - 1, cl_user = user\<rparr>"
  have eq: "PaginatedEmbed_send pe user Resolved Resolved Resolved
              = (?tr, Inr (pe\<lparr>pe_collector := Some ?c\<rparr>, ?cl))"
    by (simp add: PaginatedEmbed_send_def Let_def)
  have mem: "CreateReactionCollector ?c \<in> set ?tr"
    by simp
  have uniq: "\<forall>c'. CreateReactionCollector c' \<in> set ?tr \<longrightarrow> c' = ?c"
    by auto
  have cfg: "rc_idle ?c = 60 * 1000 \<and> rc_time ?c = 180 * 1000
        \<and> (\<forall>r u. rc_filter ?c r u = (user_id u = user_id user))"
    by simp
  show "\<exists>c tr cl. PaginatedEmbed_send pe user Resolved Resolved Resolved
                     = (tr, Inr (pe\<lparr>pe_collector := Some c\<rparr>, cl))
        \<and> CreateReactionCollector c \<in> set tr
        \<and> (\<forall>c'. CreateReactionCollector c' \<in> set tr \<longrightarrow> c' = c)
        \<and> rc_idle c = 60 * 1000 \<and> rc_time c = 180 * 1000
        \<and> (\<forall>r u. rc_filter c r u = (user_id u = user_id user))"
    using eq mem uniq cfg by (intro exI [of _ ?c] exI [of _ ?tr] exI [of _ ?cl]) blast
next
  show "\<forall>c. CreateReactionCollector c \<in> set (fst (InteractiveEmbed_send ie user sent))
            \<or> CreateReactionCollector c
                 \<in> set (fst (PaginatedEmbed_send pe user sent reacted1 reacted2))
          \<longrightarrow> rc_idle c = 60 * 1000 \<and> rc_time c = 180 * 1000
              \<and> (\<forall>r u. rc_filter c r u = (user_id u = user_id user))"
    by (cases sent; cases reacted1; cases reacted2)
       (auto simp: InteractiveEmbed_send_def PaginatedEmbed_send_def Let_def)
qed

text \<open>
  C5 on both classes: each \<^verbatim>\<open>send\<close> creates the same collector, which takes the
  authorized user's reaction to any emoji and turns another user away.
\<close>

theorem collector_configuration_witness:
  "InteractiveEmbed_send ex_interactive ex_user Resolved =
     ([Await (ChannelSend (Some 0)), Detach (React ''yes''), Detach (React ''no''),
       CreateReactionCollector ex_collector],
      Inr (ex_interactive\<lparr>ie_collector := Some ex_collector\<rparr>))
   \<and> PaginatedEmbed_send ex_pager ex_user Resolved Resolved Resolved =
     ([Await (ChannelSend (Some 0)), Await (React left_arrow), Await (React right_arrow),
       CreateReactionCollector ex_collector],
      Inr (ex_pager\<lparr>pe_collector := Some ex_collector\<rparr>,
           \<lparr>cl_index = 0, cl_max = 2, cl_user = ex_user\<rparr>))
   \<and> rc_idle ex_collector = 60 * 1000 \<and> rc_time ex_collector = 180 * 1000
   \<and> rc_filter ex_collector (ex_reaction ''x'') ex_user
   \<and> \<not> rc_filter ex_collector (ex_reaction left_arrow) \<lparr>user_id = ''7'', username = ''bob''\<rparr>"
proof -
  have 1: "InteractiveEmbed_send ex_interactive ex_user Resolved =
     ([Await (ChannelSend (Some 0)), Detach (React ''yes''), Detach (React ''no''),
       CreateReactionCollector ex_collector],
      Inr (ex_interactive\<lparr>ie_collector := Some ex_collector\<rparr>))"
    by (simp add: InteractiveEmbed_send_def ex_interactive_def ex_collector_def Let_def)
  have 2: "PaginatedEmbed_send ex_pager ex_user Resolved Resolved Resolved =
     ([Await (ChannelSend (Some 0)), Await (React left_arrow), Await (React right_arrow),
       CreateReactionCollector ex_collector],
      Inr (ex_pager\<lparr>pe_collector := Some ex_collector\<rparr>,
           \<lparr>cl_index = 0, cl_max = 2, cl_user = ex_user\<rparr>))"
    by (simp add: PaginatedEmbed_send_def ex_pager_def ex_collector_def array_get_def Let_def)
  from collector_configuration [of ex_interactive ex_user ex_pager Resolved Resolved Resolved]
  obtain c tr where s: "InteractiveEmbed_send ex_interactive ex_user Resolved
                          = (tr, Inr (ex_interactive\<lparr>ie_collector := Some c\<rparr>))"
    and c: "rc_idle c = 60 * 1000" "rc_time c = 180 * 1000"
           "\<forall>r u. rc_filter c r u = (user_id u = user_id ex_user)"
    by blast
  from s 1 have "ex_interactive\<lparr>ie_collector := Some c\<rparr>
                   = ex_interactive\<lparr>ie_collector := Some ex_collector\<rparr>"
    by simp
  then have "c = ex_collector"
    by (simp add: ex_interactive_def)
  with c have "rc_idle ex_collector = 60 * 1000" "rc_time ex_collector = 180 * 1000"
    and f: "\<forall>r u. rc_filter ex_collector r u = (user_id u = user_id ex_user)"
    by simp_all
  moreover from f have "rc_filter ex_collector (ex_reaction ''x'') ex_user"
    and "\<not> rc_filter ex_collector (ex_reaction left_arrow) \<lparr>user_id = ''7'', username = ''bob''\<rparr>"
    by (simp_all add: ex_user_def)
  ultimately show ?thesis
    using 1 2 by blast
qed

lemma attached_detached:
  "concat (map (attached early) (map (\<lambda>emoji. Detach (React emoji)) es)) = filter early es"
  by (induction es) simp_all

lemma takeWhile_before_creation:
  "takeWhile (\<lambda>x. \<not> is_creation x)
     (Await post # map (\<lambda>emoji. Detach (React emoji)) es @ CreateReactionCollector c # rest)
   = Await post # map (\<lambda>emoji. Detach (React emoji)) es"
  by (induction es) simp_all

text \<open>
  C8, as the code has it. \<^verbatim>\<open>InteractiveEmbed.send\<close> starts one reaction call per
  emoji, in order, waits for none of them, and creates the collector: the reactions
  attached at that time are those whose calls happened to resolve early, so possibly
  none. For \<^verbatim>\<open>PaginatedEmbed.send\<close> it is the opposite. It awaits the left arrow, then
  the right arrow, and creates the collector only when the message and both reactions
  have resolved, so that both arrows are attached by then; when a reaction call is
  rejected, \<^verbatim>\<open>send\<close> rejects with it, having made no later call.
\<close>

theorem send_reaction_attachment:
  "(\<exists>c. InteractiveEmbed_send ie u Resolved =
          (Await (ChannelSend (Some (ie_embed ie)))
             # map (\<lambda>emoji. Detach (React emoji)) (ie_emojis ie)
             @ [CreateReactionCollector c],
           Inr (ie\<lparr>ie_collector := Some c\<rparr>)))
   \<and> attached_at_creation early (fst (InteractiveEmbed_send ie u Resolved))
       = Some (filter early (ie_emojis ie))
   \<and> attached_at_creation (\<lambda>e. False) (fst (InteractiveEmbed_send ie u Resolved)) = Some []
   \<and> (\<exists>c cl. PaginatedEmbed_send pe u Resolved Resolved Resolved =
          ([Await (ChannelSend (array_get (pe_embeds pe) 0)), Await (React left_arrow),
            Await (React right_arrow), CreateReactionCollector c],
           Inr (pe\<lparr>pe_collector := Some c\<rparr>, cl)))
   \<and> attached_at_creation early (fst (PaginatedEmbed_send pe u Resolved Resolved Resolved))
       = Some [left_arrow, right_arrow]
   \<and> PaginatedEmbed_send pe u Resolved Rejected reacted2 =
       ([Await (ChannelSend (array_get (pe_embeds pe) 0)), Await (React left_arrow)],
        Inl (CallRejected (React left_arrow)))
   \<and> PaginatedEmbed_send pe u Resolved Resolved Rejected =
       ([Await (ChannelSend (array_get (pe_embeds pe) 0)), Await (React left_arrow),
         Await (React right_arrow)],
        Inl (CallRejected (React right_arrow)))
   \<and> ((\<exists>c. CreateReactionCollector c
            \<in> set (fst (PaginatedEmbed_send pe u sent reacted1 reacted2)))
        = (sent = Resolved \<and> reacted1 = Resolved \<and> reacted2 = Resolved))
   \<and> ((\<exists>this' cl. snd (PaginatedEmbed_send pe u sent reacted1 reacted2) = Inr (this', cl))
        = (sent = Resolved \<and> reacted1 = Resolved \<and> reacted2 = Resolved))"
proof (intro conjI)
  let ?c = "\<lparr>rc_filter = (\<lambda>reaction u'. user_id u' = user_id u),
             rc_idle = 60000, rc_time = 180000\<rparr>"
  have ie: "InteractiveEmbed_send ie u Resolved =
          (Await (ChannelSend (Some (ie_embed ie)))
             # map (\<lambda>emoji. Detach (React emoji)) (ie_emojis ie)
             @ [CreateReactionCollector ?c],
           Inr (ie\<lparr>ie_collector := Some ?c\<rparr>))"
    by (simp add: InteractiveEmbed_send_def Let_def)
  then show "\<exists>c. InteractiveEmbed_send ie u Resolved =
          (Await (ChannelSend (Some (ie_embed ie)))
             # map (\<lambda>emoji. Detach (React emoji)) (ie_emojis ie)
             @ [CreateReactionCollector c],
           Inr (ie\<lparr>ie_collector := Some c\<rparr>))"
    by blast
  have at: "attached_at_creation e (fst (InteractiveEmbed_send ie u Resolved))
              = Some (filter e (ie_emojis ie))" for e
    unfolding ie attached_at_creation_def fst_conv takeWhile_before_creation
    by (simp add: attached_detached del: map_map)
  show "attached_at_creation early (fst (InteractiveEmbed_send ie u Resolved))
       = Some (filter early (ie_emojis ie))"
    by (rule at)
  show "attached_at_creation (\<lambda>e. False) (fst (InteractiveEmbed_send ie u Resolved)) = Some []"
    by (simp add: at)
  have pe: "PaginatedEmbed_send pe u Resolved Resolved Resolved =
          ([Await (ChannelSend (array_get (pe_embeds pe) 0)), Await (React left_arrow),
            Await (React right_arrow), CreateReactionCollector ?c],
           Inr (pe\<lparr>pe_collector := Some ?c\<rparr>,
                \<lparr>cl_index = 0, cl_max = int (length (pe_embeds pe)) - 1, cl_user = u\<rparr>))"
    by (simp add: PaginatedEmbed_send_def Let_def)
  then show "\<exists>c cl. PaginatedEmbed_send pe u Resolved Resolved Resolved =
          ([Await (ChannelSend (array_get (pe_embeds pe) 0)), Await (React left_arrow),
            Await (React right_arrow), CreateReactionCollector c],
           Inr (pe\<lparr>pe_collector := Some c\<rparr>, cl))"
    by blast
  show "attached_at_creation early (fst (PaginatedEmbed_send pe u Resolved Resolved Resolved))
       = Some [left_arrow, right_arrow]"
    unfolding pe by (simp add: attached_at_creation_def)
  show "PaginatedEmbed_send pe u Resolved Rejected reacted2 =
       ([Await (ChannelSend (array_get (pe_embeds pe) 0)), Await (React left_arrow)],
        Inl (CallRejected (React left_arrow)))"
    by (simp add: PaginatedEmbed_send_def)
  show "PaginatedEmbed_send pe u Resolved Resolved Rejected =
       ([Await (ChannelSend (array_get (pe_embeds pe) 0)), Await (React left_arrow),
         Await (React right_arrow)],
        Inl (CallRejected (React right_arrow)))"
    by (simp add: PaginatedEmbed_send_def)
  show "(\<exists>c. CreateReactionCollector c
            \<in> set (fst (PaginatedEmbed_send pe u sent reacted1 reacted2)))
        = (sent = Resolved \<and> reacted1 = Resolved \<and> reacted2 = Resolved)"
    by (cases sent; cases reacted1; cases reacted2)
       (simp_all add: PaginatedEmbed_send_def Let_def)
  show "(\<exists>this' cl. snd (PaginatedEmbed_send pe u sent reacted1 reacted2) = Inr (this', cl))
        = (sent = Resolved \<and> reacted1 = Resolved \<and> reacted2 = Resolved)"
    by (cases sent; cases reacted1; cases reacted2)
       (simp_all add: PaginatedEmbed_send_def Let_def)
qed

text \<open>
  C8 on two emojis, none attached yet when the collector is there, and on a
  paginator: both arrows attached, or a rejected second reaction and no collector.
\<close>

theorem send_reaction_attachment_witness:
  "InteractiveEmbed_send ex_interactive ex_user Resolved =
     ([Await (ChannelSend (Some 0)), Detach (React ''yes''), Detach (React ''no''),
       CreateReactionCollector ex_collector],
      Inr (ex_interactive\<lparr>ie_collector := Some ex_collector\<rparr>))
   \<and> attached_at_creation (\<lambda>e. False)
        [Await (ChannelSend (Some 0)), Detach (React ''yes''), Detach (React ''no''),
         CreateReactionCollector ex_collector] = Some []
   \<and> attached_at_creation (\<lambda>e. False)
        (fst (PaginatedEmbed_send ex_pager ex_user Resolved Resolved Resolved))
       = Some [left_arrow, right_arrow]
   \<and> PaginatedEmbed_send ex_pager ex_user Resolved Resolved Rejected =
       ([Await (ChannelSend (Some 0)), Await (React left_arrow), Await (React right_arrow)],
        Inl (CallRejected (React right_arrow)))
   \<and> (\<forall>c. CreateReactionCollector c
          \<notin> set (fst (PaginatedEmbed_send ex_pager ex_user Resolved Resolved Rejected)))"
proof -
  have 1: "InteractiveEmbed_send ex_interactive ex_user Resolved =
     ([Await (ChannelSend (Some 0)), Detach (React ''yes''), Detach (React ''no''),
       CreateReactionCollector ex_collector],
      Inr (ex_interactive\<lparr>ie_collector := Some ex_collector\<rparr>))"
    by (simp add: InteractiveEmbed_send_def ex_interactive_def ex_collector_def Let_def)
  have g: "array_get (pe_embeds ex_pager) 0 = Some 0"
    by (simp add: ex_pager_def array_get_def)
  note t = send_reaction_attachment
             [where ie = ex_interactive and u = ex_user and early = "\<lambda>e. False"
                and pe = ex_pager and sent = Resolved and ?reacted1.0 = Resolved
                and ?reacted2.0 = Rejected]
  from t have "attached_at_creation (\<lambda>e. False)
                 (fst (InteractiveEmbed_send ex_interactive ex_user Resolved)) = Some []"
    by blast
  then have 2: "attached_at_creation (\<lambda>e. False)
        [Await (ChannelSend (Some 0)), Detach (React ''yes''), Detach (React ''no''),
         CreateReactionCollector ex_collector] = Some []"
    by (simp add: 1)
  from t have 3: "attached_at_creation (\<lambda>e. False)
        (fst (PaginatedEmbed_send ex_pager ex_user Resolved Resolved Resolved))
       = Some [left_arrow, right_arrow]"
    by blast
  from t have "PaginatedEmbed_send ex_pager ex_user Resolved Resolved Rejected =
       ([Await (ChannelSend (array_get (pe_embeds ex_pager) 0)), Await (React left_arrow),
         Await (React right_arrow)],
        Inl (CallRejected (React right_arrow)))"
    by blast
  then have 4: "PaginatedEmbed_send ex_pager ex_user Resolved Resolved Rejected =
       ([Await (ChannelSend (Some 0)), Await (React left_arrow), Await (React right_arrow)],
        Inl (CallRejected (React right_arrow)))"
    by (simp add: g)
  from t have "(\<exists>c. CreateReactionCollector c
            \<in> set (fst (PaginatedEmbed_send ex_pager ex_user Resolved Resolved Rejected)))
        = (Resolved = Resolved \<and> Resolved = Resolved \<and> Rejected = Resolved)"
    by blast
  then have 5: "\<forall>c. CreateReactionCollector c
          \<notin> set (fst (PaginatedEmbed_send ex_pager ex_user Resolved Resolved Rejected))"
    by simp
  show ?thesis
    using 1 2 3 4 5 by blast
qed

text \<open>
  C8 as stated fails for the paginator: when its first reaction call is rejected,
  \<^verbatim>\<open>send\<close> stops there, with no collector and no second reaction. It was waiting.
\<close>

theorem paginated_send_awaits_reactions:
  "PaginatedEmbed_send ex_pager ex_user Resolved Rejected Resolved =
     ([Await (ChannelSend (Some 0)), Await (React left_arrow)],
      Inl (CallRejected (React left_arrow)))
   \<and> Detach (React left_arrow)
       \<notin> set (fst (PaginatedEmbed_send ex_pager ex_user Resolved Resolved Resolved))
   \<and> Detach (React right_arrow)
       \<notin> set (fst (PaginatedEmbed_send ex_pager ex_user Resolved Resolved Resolved))"
  by (simp add: PaginatedEmbed_send_def ex_pager_def array_get_def Let_def)

section \<open>The end of the collector\<close>

lemma spread_override: "spread a b k = (if k \<in> dom b then b k else a k)"
  by (auto simp: spread_def split: option.splits)

text \<open>
  A new embed has the next address, holds what the constructor made of the argument,
  and leaves every object in use as it was.
\<close>

lemma MessageEmbed_new_fresh:
  assumes "MessageEmbed_new lib x h = (a, h')"
  shows "a = nextAddr h" and "same_objects h h'"
    and "snapshot h' a = construct lib (read_arg h x)"
proof -
  obtain c f where cf: "construct lib (read_arg h x) = (c, f)"
    by (cases "construct lib (read_arg h x)")
  show "a = nextAddr h"
    using assms cf by (cases f) (auto simp: MessageEmbed_new_def Let_def)
  show "same_objects h h'"
    using assms cf by (cases f) (auto simp: MessageEmbed_new_def Let_def same_objects_def)
  show "snapshot h' a = construct lib (read_arg h x)"
    using assms cf by (cases f) (auto simp: MessageEmbed_new_def Let_def snapshot_def)
qed




text \<open>
  C3. When the collector ends, both classes call for the removal of all reactions.
  Without a kill-patch that is all: no edit, the instance and the store as they were.
  With a kill-patch \<open>k\<close> the message is then edited to a new embed, built from the
  spread of the serialised current embed (the instance's embed, or the page at the
  current index, which exists in every state the handlers reach) and \<open>k\<close>; in that
  spread a key of \<open>k\<close> has the value \<open>k\<close> gives it, any other key the value of the
  serialised embed.
\<close>

theorem collector_end_kill_patch:
  "(ie_killed ie = None \<longrightarrow>
      InteractiveEmbed_end lib ie h = ([Detach ReactionsRemoveAll], ie, h))
   \<and> (ie_killed ie = Some k \<longrightarrow>
      (\<exists>a h'. InteractiveEmbed_end lib ie h =
                ([Detach ReactionsRemoveAll, Detach (MessageEdit (Some a))],
                 ie\<lparr>ie_embed := a\<rparr>, h')
          \<and> snapshot h' a =
              construct lib (Inr (spread (toJSON lib (snapshot h (ie_embed ie))) k))))
   \<and> (pe_killed pe = None \<longrightarrow>
      PaginatedEmbed_end lib pe cl h = ([Detach ReactionsRemoveAll], Inr h))
   \<and> (pe_killed pe = Some k \<and> array_get (pe_embeds pe) (cl_index cl) = Some cur \<longrightarrow>
      (\<exists>a h'. PaginatedEmbed_end lib pe cl h =
                ([Detach ReactionsRemoveAll, Detach (MessageEdit (Some a))], Inr h')
          \<and> snapshot h' a = construct lib (Inr (spread (toJSON lib (snapshot h cur)) k))))
   \<and> spread j k key = (if key \<in> dom k then k key else j key)"
proof (intro conjI impI)
  show "spread j k key = (if key \<in> dom k then k key else j key)"
    by (rule spread_override)
next
  assume "ie_killed ie = None"
  then show "InteractiveEmbed_end lib ie h = ([Detach ReactionsRemoveAll], ie, h)"
    by (simp add: InteractiveEmbed_end_def)
next
  assume "pe_killed pe = None"
  then show "PaginatedEmbed_end lib pe cl h = ([Detach ReactionsRemoveAll], Inr h)"
    by (simp add: PaginatedEmbed_end_def)
next
  assume k: "ie_killed ie = Some k"
  let ?d = "spread (toJSON lib (snapshot h (ie_embed ie))) k"
  obtain a h' where n: "MessageEmbed_new lib (Options ?d) h = (a, h')"
    by (cases "MessageEmbed_new lib (Options ?d) h")
  have "snapshot h' a = construct lib (Inr ?d)"
    using MessageEmbed_new_fresh(3) [OF n] by (simp add: read_arg_def)
  moreover have "InteractiveEmbed_end lib ie h =
      ([Detach ReactionsRemoveAll, Detach (MessageEdit (Some a))], ie\<lparr>ie_embed := a\<rparr>, h')"
    using k n by (simp add: InteractiveEmbed_end_def)
  ultimately show "\<exists>a h'. InteractiveEmbed_end lib ie h =
                ([Detach ReactionsRemoveAll, Detach (MessageEdit (Some a))],
                 ie\<lparr>ie_embed := a\<rparr>, h')
          \<and> snapshot h' a = construct lib (Inr ?d)"
    by blast
next
  assume k: "pe_killed pe = Some k \<and> array_get (pe_embeds pe) (cl_index cl) = Some cur"
  let ?d = "spread (toJSON lib (snapshot h cur)) k"
  obtain a h' where n: "MessageEmbed_new lib (Options ?d) h = (a, h')"
    by (cases "MessageEmbed_new lib (Options ?d) h")
  have "snapshot h' a = construct lib (Inr ?d)"
    using MessageEmbed_new_fresh(3) [OF n] by (simp add: read_arg_def)
  moreover have "PaginatedEmbed_end lib pe cl h =
      ([Detach ReactionsRemoveAll, Detach (MessageEdit (Some a))], Inr h')"
    using k n by (simp add: PaginatedEmbed_end_def)
  ultimately show "\<exists>a h'. PaginatedEmbed_end lib pe cl h =
                ([Detach ReactionsRemoveAll, Detach (MessageEdit (Some a))], Inr h')
          \<and> snapshot h' a = construct lib (Inr ?d)"
    by blast
qed

text \<open>
  C3 without a patch, and with a patch that sets the title to \<open>Closed\<close>: the embed
  shown last has that title.
\<close>

theorem collector_end_kill_patch_witness:
  "InteractiveEmbed_end ex_lib ex_interactive ex_heap =
     ([Detach ReactionsRemoveAll], ex_interactive, ex_heap)
   \<and> PaginatedEmbed_end ex_lib ex_pager \<lparr>cl_index = 1, cl_max = 2, cl_user = ex_user\<rparr> ex_heap =
     ([Detach ReactionsRemoveAll], Inr ex_heap)
   \<and> (\<exists>a h'. InteractiveEmbed_end ex_lib (ex_interactive\<lparr>ie_killed := Some ex_patch\<rparr>) ex_heap =
          ([Detach ReactionsRemoveAll, Detach (MessageEdit (Some a))],
           ex_interactive\<lparr>ie_killed := Some ex_patch, ie_embed := a\<rparr>, h')
        \<and> snapshot h' a = (''Closed'', None))
   \<and> (\<exists>a h'. PaginatedEmbed_end ex_lib (ex_pager\<lparr>pe_killed := Some ex_patch\<rparr>)
             \<lparr>cl_index = 1, cl_max = 2, cl_user = ex_user\<rparr> ex_heap =
          ([Detach ReactionsRemoveAll, Detach (MessageEdit (Some a))], Inr h')
        \<and> snapshot h' a = (''Closed'', None))"
proof -
  have c: "construct ex_lib (Inr (spread (toJSON ex_lib v) ex_patch)) = (''Closed'', None)" for v
    by (simp add: ex_lib_def spread_def ex_patch_def)
  have g: "array_get (pe_embeds (ex_pager\<lparr>pe_killed := Some ex_patch\<rparr>))
             (cl_index \<lparr>cl_index = 1, cl_max = 2, cl_user = ex_user\<rparr>) = Some 1"
    by (simp add: ex_pager_def array_get_def)
  show ?thesis
    using collector_end_kill_patch
            [of ex_interactive ex_lib ex_heap ex_patch ex_pager
                "\<lparr>cl_index = 1, cl_max = 2, cl_user = ex_user\<rparr>" 1]
          collector_end_kill_patch
            [of "ex_interactive\<lparr>ie_killed := Some ex_patch\<rparr>" ex_lib ex_heap ex_patch
                "ex_pager\<lparr>pe_killed := Some ex_patch\<rparr>"
                "\<lparr>cl_index = 1, cl_max = 2, cl_user = ex_user\<rparr>" 1] g
    by (simp add: c ex_interactive_def ex_pager_def)
qed



section \<open>Page numbers in the footers\<close>

subsection \<open>What one callback writes\<close>

lemma annotate_embedObjs:
  "embedObjs (annotate i n a h) b =
     (if b = a \<and> footer (embedObjs h a) = None
      then (embedObjs h a)\<lparr>footer := Some (nextAddr h)\<rparr> else embedObjs h b)"
  by (simp add: annotate_def setFooter_def split: option.splits)

lemma annotate_footerObjs:
  "footerObjs (annotate i n a h) g =
     (case footer (embedObjs h a) of
        None \<Rightarrow> if g = nextAddr h
                then \<lparr>footer_text = Some (page_label i n), iconURL = None, proxyIconURL = None\<rparr>
                else footerObjs h g
      | Some f \<Rightarrow> if g = f
                then (footerObjs h f)\<lparr>footer_text := Some (annotated_text h i n a)\<rparr>
                else footerObjs h g)"
  by (simp add: annotate_def setFooter_def annotated_text_def split: option.splits)

lemma annotate_nextAddr:
  "nextAddr (annotate i n a h) =
     (if footer (embedObjs h a) = None then nextAddr h + 1 else nextAddr h)"
  by (simp add: annotate_def setFooter_def split: option.splits)

lemma annotate_footer_text_of:
  "footer_text_of (annotate i n a h) a = Some (annotated_text h i n a)"
  by (simp add: footer_text_of_def annotate_embedObjs annotate_footerObjs annotated_text_def
           split: option.splits)

subsection \<open>What the later callbacks leave alone\<close>

lemma map_annotate_embedObjs:
  "b \<notin> set as \<Longrightarrow> embedObjs (map_annotate i n as h) b = embedObjs h b"
  by (induction as arbitrary: i h) (auto simp: annotate_embedObjs)

lemma map_annotate_footerObjs:
  "\<forall>a\<in>set as. footer (embedObjs h a) \<noteq> Some g \<Longrightarrow> g < nextAddr h
     \<Longrightarrow> footerObjs (map_annotate i n as h) g = footerObjs h g"
proof (induction as arbitrary: i h)
  case Nil
  then show ?case by simp
next
  case (Cons a as)
  let ?h = "annotate i n a h"
  have "\<forall>b\<in>set as. footer (embedObjs ?h b) \<noteq> Some g"
    using Cons.prems by (auto simp: annotate_embedObjs)
  moreover have "g < nextAddr ?h"
    using Cons.prems by (simp add: annotate_nextAddr)
  ultimately have "footerObjs (map_annotate (Suc i) n as ?h) g = footerObjs ?h g"
    by (rule Cons.IH)
  moreover have "footerObjs ?h g = footerObjs h g"
    using Cons.prems by (auto simp: annotate_footerObjs split: option.splits)
  ultimately show ?case by simp
qed

lemma map_annotate_keeps:
  assumes "a \<notin> set as" and "footer (embedObjs h a) = Some f" and "f < nextAddr h"
    and "\<forall>b\<in>set as. footer (embedObjs h b) \<noteq> Some f"
  shows "footer_text_of (map_annotate i n as h) a = footer_text_of h a"
  using assms by (simp add: footer_text_of_def map_annotate_embedObjs map_annotate_footerObjs)

text \<open>
  One callback on the head of an unshared array: the rest is unshared still, reads as
  before, and has no part in the footer of the head.
\<close>

lemma unshared_annotate:
  assumes "unshared h (a # as)"
  shows "unshared (annotate i n a h) as"
    and "\<forall>b\<in>set as. annotated_text (annotate i n a h) j n b = annotated_text h j n b"
    and "\<forall>b\<in>set as. footer (embedObjs (annotate i n a h) b)
                        \<noteq> footer (embedObjs (annotate i n a h) a)"
    and "\<exists>f. footer (embedObjs (annotate i n a h) a) = Some f
             \<and> f < nextAddr (annotate i n a h)"
proof -
  let ?h = "annotate i n a h"
  have na: "a \<notin> set as" and d: "distinct as"
    using assms by (auto simp: unshared_def)
  have same: "embedObjs ?h b = embedObjs h b" if "b \<in> set as" for b
    using that na by (auto simp: annotate_embedObjs)
  have below: "f < nextAddr h" if "b \<in> set (a # as)" "footer (embedObjs h b) = Some f" for b f
    using assms that unfolding unshared_def by (auto split: option.splits)
  have apart: "footer (embedObjs h b) \<noteq> Some f"
    if "b \<in> set as" "footer (embedObjs h a) = Some f" for b f
  proof -
    have "a \<noteq> b" using that(1) na by auto
    then have "footer (embedObjs h a) = None
        \<or> footer (embedObjs h a) \<noteq> footer (embedObjs h b)"
      using assms that(1) by (simp add: unshared_def)
    then show ?thesis using that(2) by auto
  qed
  show "unshared ?h as"
    unfolding unshared_def
  proof (intro conjI ballI impI)
    show "distinct as" by (rule d)
  next
    fix b c assume "b \<in> set as" "c \<in> set as" "b \<noteq> c"
    then show "footer (embedObjs ?h b) = None
        \<or> footer (embedObjs ?h b) \<noteq> footer (embedObjs ?h c)"
      using assms unfolding unshared_def by (simp add: same)
  next
    fix b assume b: "b \<in> set as"
    show "case footer (embedObjs ?h b) of None \<Rightarrow> True | Some f \<Rightarrow> f < nextAddr ?h"
      using below [of b] b by (auto simp: same annotate_nextAddr split: option.splits)
  qed
  show "\<forall>b\<in>set as. annotated_text ?h j n b = annotated_text h j n b"
  proof
    fix b assume b: "b \<in> set as"
    show "annotated_text ?h j n b = annotated_text h j n b"
    proof (cases "footer (embedObjs h b)")
      case None
      then show ?thesis by (simp add: annotated_text_def same b)
    next
      case (Some g)
      have "g < nextAddr h" using below [of b g] b Some by simp
      moreover have "footer (embedObjs h a) \<noteq> Some g" using apart [OF b] Some by auto
      ultimately have "footerObjs ?h g = footerObjs h g"
        by (auto simp: annotate_footerObjs split: option.splits)
      then show ?thesis by (simp add: annotated_text_def same b Some)
    qed
  qed
  show "\<forall>b\<in>set as. footer (embedObjs ?h b) \<noteq> footer (embedObjs ?h a)"
  proof
    fix b assume b: "b \<in> set as"
    show "footer (embedObjs ?h b) \<noteq> footer (embedObjs ?h a)"
    proof (cases "footer (embedObjs h a)")
      case None
      then have "footer (embedObjs ?h a) = Some (nextAddr h)"
        by (simp add: annotate_embedObjs)
      moreover have "footer (embedObjs ?h b) \<noteq> Some (nextAddr h)"
        using below [of b "nextAddr h"] b by (auto simp: same)
      ultimately show ?thesis by simp
    next
      case (Some f)
      then have "footer (embedObjs ?h a) = Some f" by (simp add: annotate_embedObjs)
      then show ?thesis using apart [OF b Some] by (simp add: same b)
    qed
  qed
  show "\<exists>f. footer (embedObjs ?h a) = Some f \<and> f < nextAddr ?h"
    using below [of a]
    by (cases "footer (embedObjs h a)") (auto simp: annotate_embedObjs annotate_nextAddr)
qed

subsection \<open>The whole array\<close>

text \<open>
  On an unshared array, the embed at position \<open>k\<close> ends with the text its own callback
  gave it, computed from the store the constructor started with.
\<close>

lemma map_annotate_text:
  "unshared h as \<Longrightarrow> k < length as
     \<Longrightarrow> footer_text_of (map_annotate i n as h) (as ! k)
           = Some (annotated_text h (i + k) n (as ! k))"
proof (induction as arbitrary: i h k)
  case Nil
  then show ?case by simp
next
  case (Cons a as)
  let ?h = "annotate i n a h"
  note u = unshared_annotate [OF Cons.prems(1), of i n]
  show ?case
  proof (cases k)
    case 0
    obtain f where f: "footer (embedObjs ?h a) = Some f" "f < nextAddr ?h"
      using u(4) by blast
    have "a \<notin> set as" using Cons.prems(1) by (simp add: unshared_def)
    moreover have "\<forall>b\<in>set as. footer (embedObjs ?h b) \<noteq> Some f"
      using u(3) f(1) by simp
    ultimately have "footer_text_of (map_annotate (Suc i) n as ?h) a = footer_text_of ?h a"
      using f by (intro map_annotate_keeps)
    then show ?thesis by (simp add: 0 annotate_footer_text_of)
  next
    case (Suc k')
    then have k': "k' < length as" using Cons.prems(2) by simp
    have "footer_text_of (map_annotate (Suc i) n as ?h) (as ! k')
            = Some (annotated_text ?h (Suc i + k') n (as ! k'))"
      using u(1) k' by (rule Cons.IH)
    moreover have "annotated_text ?h (Suc i + k') n (as ! k')
                     = annotated_text h (Suc i + k') n (as ! k')"
      using u(2) k' by simp
    ultimately show ?thesis by (simp add: Suc)
  qed
qed

lemma map_annotate_snoc:
  "map_annotate j n (as @ [a]) h = annotate (j + length as) n a (map_annotate j n as h)"
  by (induction as arbitrary: j h) simp_all

lemma map_annotate_take:
  "i < length as \<Longrightarrow>
     map_annotate 0 n (take (Suc i) as) h
       = annotate i n (as ! i) (map_annotate 0 n (take i as) h)"
  by (simp add: take_Suc_conv_app_nth map_annotate_snoc)

subsection \<open>The constructor\<close>

text \<open>
  C4, as the code has it. On an empty array the constructor throws its error. On any
  other array it returns, keeping the references it was given; and when nothing in the
  array is shared, the footer text of the embed at each 0-based position \<open>i\<close> ends with
  the page label of \<open>i + 1\<close> out of the length.
\<close>

theorem paginated_constructor_footers:
  "PaginatedEmbed_new [] killed h =
     Inl (Error ''At least 1 MessageEmbed must be provided in a PaginatedEmbed.'')
   \<and> (embeds \<noteq> [] \<longrightarrow>
        (\<exists>this h'. PaginatedEmbed_new embeds killed h = Inr (this, h')
           \<and> pe_embeds this = embeds
           \<and> (unshared h embeds \<longrightarrow>
                (\<forall>i<length embeds. \<exists>t. footer_text_of h' (embeds ! i) = Some t
                   \<and> suffix (''Page '' @ decimal (i + 1) @ ''/'' @ decimal (length embeds)) t))))"
proof (intro conjI impI)
  show "PaginatedEmbed_new [] killed h =
     Inl (Error ''At least 1 MessageEmbed must be provided in a PaginatedEmbed.'')"
    by (simp add: PaginatedEmbed_new_def)
next
  assume ne: "embeds \<noteq> []"
  let ?n = "length embeds"
  let ?h = "map_annotate 0 ?n embeds h"
  let ?this = "\<lparr>pe_collector = None, pe_embeds = embeds, pe_killed = killed\<rparr>"
  have new: "PaginatedEmbed_new embeds killed h = Inr (?this, ?h)"
    using ne by (simp add: PaginatedEmbed_new_def)
  have "\<exists>t. footer_text_of ?h (embeds ! i) = Some t
           \<and> suffix (''Page '' @ decimal (i + 1) @ ''/'' @ decimal ?n) t"
    if u: "unshared h embeds" and i: "i < ?n" for i
  proof -
    have "footer_text_of ?h (embeds ! i) = Some (annotated_text h i ?n (embeds ! i))"
      using map_annotate_text [OF u i, of 0 ?n] by simp
    moreover have "suffix (page_label i ?n) (annotated_text h i ?n (embeds ! i))"
      by (auto simp: annotated_text_def page_suffix_def suffix_def split: option.splits)
    ultimately show ?thesis by (simp add: page_label_def)
  qed
  then show "\<exists>this h'. PaginatedEmbed_new embeds killed h = Inr (this, h')
           \<and> pe_embeds this = embeds
           \<and> (unshared h embeds \<longrightarrow>
                (\<forall>i<length embeds. \<exists>t. footer_text_of h' (embeds ! i) = Some t
                   \<and> suffix (''Page '' @ decimal (i + 1) @ ''/'' @ decimal (length embeds)) t))"
    using new by auto
qed

text \<open>C4 on the three embeds: the second, which had a footer, ends with its page.\<close>

theorem paginated_constructor_footers_witness:
  "unshared ex_heap [0, 1, 2]
   \<and> (\<exists>this h'. PaginatedEmbed_new [0, 1, 2] (None :: string obj option) ex_heap
                   = Inr (this, h')
         \<and> (\<exists>t. footer_text_of h' 1 = Some t \<and> suffix ''Page 2/3'' t))"
proof -
  have u: "unshared ex_heap [0, 1, 2]"
    by (simp add: unshared_def ex_heap_def)
  have d: "''Page '' @ decimal (1 + 1) @ ''/'' @ decimal (length [0, 1, 2 :: nat])
             = ''Page 2/3''"
    by (simp add: decimal.simps digit_def)
  have "[0, 1, 2 :: nat] \<noteq> []" by simp
  with paginated_constructor_footers [of "None :: string obj option" ex_heap "[0, 1, 2]"]
  obtain this h'
    where new: "PaginatedEmbed_new [0, 1, 2] (None :: string obj option) ex_heap
                  = Inr (this, h')"
      and all: "unshared ex_heap [0, 1, 2] \<longrightarrow>
        (\<forall>i<length [0, 1, 2 :: nat]. \<exists>t. footer_text_of h' ([0, 1, 2] ! i) = Some t
           \<and> suffix (''Page '' @ decimal (i + 1) @ ''/''
                       @ decimal (length [0, 1, 2 :: nat])) t)"
    by blast
  from all u
  have "\<forall>i<length [0, 1, 2 :: nat]. \<exists>t. footer_text_of h' ([0, 1, 2] ! i) = Some t
           \<and> suffix (''Page '' @ decimal (i + 1) @ ''/''
                       @ decimal (length [0, 1, 2 :: nat])) t"
    by (rule mp)
  then have "(1::nat) < length [0, 1, 2 :: nat] \<longrightarrow>
      (\<exists>t. footer_text_of h' ([0, 1, 2] ! 1) = Some t
           \<and> suffix (''Page '' @ decimal (1 + 1) @ ''/''
                       @ decimal (length [0, 1, 2 :: nat])) t)"
    by (rule spec)
  then have "\<exists>t. footer_text_of h' 1 = Some t \<and> suffix ''Page 2/3'' t"
    unfolding d by simp
  with u new show ?thesis by blast
qed

text \<open>
  C4 as stated fails when one embed object is passed twice: the second callback
  appends to the footer that the first one made, so the embed at the first position
  ends with the label of the second page.
\<close>

theorem paginated_constructor_shared_embed:
  "PaginatedEmbed_new [0, 0] (None :: string obj option) ex_heap =
     Inr (\<lparr>pe_collector = None, pe_embeds = [0, 0], pe_killed = None\<rparr>,
          map_annotate 0 2 [0, 0] ex_heap)
   \<and> footer_text_of (map_annotate 0 2 [0, 0] ex_heap) ([0, 0] ! 0)
       = Some (''Page 1/2 '' @ bullet @ '' Page 2/2'')
   \<and> \<not> suffix (''Page '' @ decimal (0 + 1) @ ''/'' @ decimal 2)
         (''Page 1/2 '' @ bullet @ '' Page 2/2'')"
proof (intro conjI)
  show "PaginatedEmbed_new [0, 0] (None :: string obj option) ex_heap =
     Inr (\<lparr>pe_collector = None, pe_embeds = [0, 0], pe_killed = None\<rparr>,
          map_annotate 0 2 [0, 0] ex_heap)"
    by (simp add: PaginatedEmbed_new_def numeral_2_eq_2 del: map_annotate.simps)
  show "footer_text_of (map_annotate 0 2 [0, 0] ex_heap) ([0, 0] ! 0)
       = Some (''Page 1/2 '' @ bullet @ '' Page 2/2'')"
    by (simp add: footer_text_of_def annotate_embedObjs annotate_footerObjs
        annotate_nextAddr ex_heap_def annotated_text_def page_label_def page_suffix_def
        decimal.simps digit_def)
  show "\<not> suffix (''Page '' @ decimal (0 + 1) @ ''/'' @ decimal 2)
         (''Page 1/2 '' @ bullet @ '' Page 2/2'')"
    by (simp add: decimal.simps digit_def bullet_def suffix_to_prefix)
qed

text \<open>
  C6, as the code has it. When the callback runs at the 0-based position \<open>i\<close> of \<open>n\<close>
  on the embed at \<open>a\<close>: if the embed has a footer, that footer object stays and its
  text, an absent one counting as empty, gets the bullet and the page label appended;
  if it has none, it gets a footer whose text is the page label alone, with no bullet.
  The rest of the embed and every other embed object are untouched. The constructor
  keeps the caller's references and runs the callbacks in order, each on the store the
  one before left: the writes go to the caller's objects.
\<close>

theorem annotate_extends_or_creates:
  "(footer (embedObjs h a) = Some f \<longrightarrow>
      footer (embedObjs (annotate i n a h) a) = Some f
      \<and> footer_text (footerObjs (annotate i n a h) f) =
          Some ((case footer_text (footerObjs h f) of None \<Rightarrow> [] | Some s \<Rightarrow> s)
                @ '' '' @ bullet @ '' Page '' @ decimal (i + 1) @ ''/'' @ decimal n))
   \<and> (footer (embedObjs h a) = None \<longrightarrow>
      footer_text_of (annotate i n a h) a
        = Some (''Page '' @ decimal (i + 1) @ ''/'' @ decimal n))
   \<and> content (embedObjs (annotate i n a h) a) = content (embedObjs h a)
   \<and> (b \<noteq> a \<longrightarrow> embedObjs (annotate i n a h) b = embedObjs h b)
   \<and> (PaginatedEmbed_new embeds killed h = Inr (this, h') \<longrightarrow>
        pe_embeds this = embeds \<and> h' = map_annotate 0 (length embeds) embeds h
        \<and> (\<forall>k<length embeds.
              map_annotate 0 (length embeds) (take (Suc k) embeds) h =
                annotate k (length embeds) (embeds ! k)
                  (map_annotate 0 (length embeds) (take k embeds) h)))"
proof (intro conjI impI)
  assume "footer (embedObjs h a) = Some f"
  then show "footer (embedObjs (annotate i n a h) a) = Some f"
    by (simp add: annotate_embedObjs)
next
  assume "footer (embedObjs h a) = Some f"
  then show "footer_text (footerObjs (annotate i n a h) f) =
          Some ((case footer_text (footerObjs h f) of None \<Rightarrow> [] | Some s \<Rightarrow> s)
                @ '' '' @ bullet @ '' Page '' @ decimal (i + 1) @ ''/'' @ decimal n)"
    by (simp add: annotate_footerObjs annotated_text_def page_suffix_def page_label_def)
next
  assume "footer (embedObjs h a) = None"
  then show "footer_text_of (annotate i n a h) a
        = Some (''Page '' @ decimal (i + 1) @ ''/'' @ decimal n)"
    by (simp add: annotate_footer_text_of annotated_text_def page_label_def)
next
  show "content (embedObjs (annotate i n a h) a) = content (embedObjs h a)"
    by (simp add: annotate_embedObjs)
next
  assume "b \<noteq> a"
  then show "embedObjs (annotate i n a h) b = embedObjs h b"
    by (simp add: annotate_embedObjs)
next
  assume "PaginatedEmbed_new embeds killed h = Inr (this, h')"
  then show "pe_embeds this = embeds" and "h' = map_annotate 0 (length embeds) embeds h"
    by (auto simp: PaginatedEmbed_new_def split: if_splits)
next
  show "\<forall>k<length embeds.
              map_annotate 0 (length embeds) (take (Suc k) embeds) h =
                annotate k (length embeds) (embeds ! k)
                  (map_annotate 0 (length embeds) (take k embeds) h)"
    by (simp add: map_annotate_take)
qed

text \<open>
  C6 on the three embeds: the footer \<open>Notes\<close> of the second is extended, the first gets
  a footer of its own, the third is untouched by the first callback.
\<close>

theorem annotate_extends_or_creates_witness:
  "footer (embedObjs ex_heap 1) = Some 3
   \<and> footer_text (footerObjs (annotate 1 3 1 ex_heap) 3)
       = Some (''Notes '' @ bullet @ '' Page 2/3'')
   \<and> footer (embedObjs ex_heap 0) = None
   \<and> footer_text_of (annotate 0 3 0 ex_heap) 0 = Some ''Page 1/3''
   \<and> embedObjs (annotate 0 3 0 ex_heap) 2 = embedObjs ex_heap 2
   \<and> map_annotate 0 3 (take (Suc 1) [0, 1, 2]) ex_heap
       = annotate 1 3 ([0, 1, 2] ! 1) (map_annotate 0 3 (take 1 [0, 1, 2]) ex_heap)"
proof -
  have f1: "footer (embedObjs ex_heap 1) = Some 3" and f0: "footer (embedObjs ex_heap 0) = None"
    and t: "footer_text (footerObjs ex_heap 3) = Some ''Notes''"
    by (simp_all add: ex_heap_def)
  have d: "decimal (0 + 1) = ''1''" "decimal (1 + 1) = ''2''" "decimal 3 = ''3''"
    by (simp_all add: decimal.simps digit_def)
  have new: "PaginatedEmbed_new [0, 1, 2] (None :: string obj option) ex_heap =
     Inr (ex_pager, map_annotate 0 3 [0, 1, 2] ex_heap)"
    by (simp add: PaginatedEmbed_new_def ex_pager_def numeral_3_eq_3 del: map_annotate.simps)
  have l: "length [0, 1, 2 :: nat] = 3" by simp
  from annotate_extends_or_creates
         [of ex_heap 1 3 1 3 2 "[0, 1, 2]" "None :: string obj option" ex_pager
             "map_annotate 0 3 [0, 1, 2] ex_heap"] f1 t d
  have 1: "footer_text (footerObjs (annotate 1 3 1 ex_heap) 3)
       = Some (''Notes '' @ bullet @ '' Page 2/3'')"
    by simp
  from annotate_extends_or_creates
         [of ex_heap 1 3 1 3 2 "[0, 1, 2]" "None :: string obj option" ex_pager
             "map_annotate 0 3 [0, 1, 2] ex_heap"] new
  have "\<forall>k<length [0, 1, 2 :: nat].
          map_annotate 0 (length [0, 1, 2 :: nat]) (take (Suc k) [0, 1, 2]) ex_heap =
          annotate k (length [0, 1, 2 :: nat]) ([0, 1, 2] ! k)
            (map_annotate 0 (length [0, 1, 2 :: nat]) (take k [0, 1, 2]) ex_heap)"
    by blast
  then have 2: "map_annotate 0 3 (take (Suc 1) [0, 1, 2]) ex_heap
       = annotate 1 3 ([0, 1, 2] ! 1) (map_annotate 0 3 (take 1 [0, 1, 2]) ex_heap)"
    unfolding l by (rule allE) simp
  from annotate_extends_or_creates
         [of ex_heap 0 4 0 3 2 "[0, 1, 2]" "None :: string obj option" ex_pager
             "map_annotate 0 3 [0, 1, 2] ex_heap"] f0 d
  have 3: "footer_text_of (annotate 0 3 0 ex_heap) 0 = Some ''Page 1/3''
           \<and> embedObjs (annotate 0 3 0 ex_heap) 2 = embedObjs ex_heap 2"
    by simp
  show ?thesis
    using f1 f0 1 2 3 by blast
qed

text \<open>
  C6 as stated fails for an embed without a footer: alone in the array, it gets the
  text \<open>Page 1/1\<close>, which does not end with the bullet and the page label.
\<close>

theorem created_footer_has_no_bullet:
  "PaginatedEmbed_new [0] (None :: string obj option) ex_heap =
     Inr (\<lparr>pe_collector = None, pe_embeds = [0], pe_killed = None\<rparr>,
          map_annotate 0 1 [0] ex_heap)
   \<and> footer (embedObjs ex_heap 0) = None
   \<and> footer_text_of (map_annotate 0 1 [0] ex_heap) 0 = Some ''Page 1/1''
   \<and> \<not> suffix ('' '' @ bullet @ '' Page '' @ decimal (0 + 1) @ ''/'' @ decimal 1) ''Page 1/1''"
proof (intro conjI)
  show "PaginatedEmbed_new [0] (None :: string obj option) ex_heap =
     Inr (\<lparr>pe_collector = None, pe_embeds = [0], pe_killed = None\<rparr>,
          map_annotate 0 1 [0] ex_heap)"
    by (simp add: PaginatedEmbed_new_def del: map_annotate.simps)
  show "footer (embedObjs ex_heap 0) = None"
    by (simp add: ex_heap_def)
  show "footer_text_of (map_annotate 0 1 [0] ex_heap) 0 = Some ''Page 1/1''"
    by (simp add: footer_text_of_def annotate_embedObjs annotate_footerObjs
        annotate_nextAddr ex_heap_def annotated_text_def page_label_def page_suffix_def
        decimal.simps digit_def)
  show "\<not> suffix ('' '' @ bullet @ '' Page '' @ decimal (0 + 1) @ ''/'' @ decimal 1) ''Page 1/1''"
    by (simp add: decimal.simps digit_def bullet_def suffix_to_prefix)
qed

end
